theory Spec2Isabelle
  imports Complex_Main "HOL-Library.Word"
begin

unbundle bit_operations_syntax

section \<open>Numbers, strings and errors\<close>

text \<open>
  The program is \<^verbatim>\<open>src/lib/createStreamingSVGRenderer.js\<close>.

  A JavaScript number is a binary64 value: a finite one, given by the real number it
  stands for, one of the two infinities, or \<^verbatim>\<open>NaN\<close>. The two zeros are one value:
  the source never divides by a coordinate nor calls \<^verbatim>\<open>Object.is\<close>, so it cannot
  tell them apart. The operators \<^verbatim>\<open>+\<close>, \<^verbatim>\<open>-\<close> and \<^verbatim>\<open>*\<close> on coordinates round
  the exact result to the nearest binary64 value, a tie to the even significand, and
  overflow to an infinity. The complementary colour is the one exception: its
  arithmetic on the colour bytes is done on exact reals.

  A packed RGBA colour is a 32-bit word: the bit pattern that the bitwise operators
  of the source compute.
\<close>

datatype number =
    Finite real
  | Infinity
  | NegInfinity
  | NaN

type_synonym rgba = "32 word"

definition pow2 :: "int \<Rightarrow> real" where
  "pow2 k = (if 0 \<le> k then 2 ^ nat k else 1 / 2 ^ nat (- k))"

text \<open>
  The greatest \<open>k\<close> between \<open>lo\<close> and \<open>hi\<close> with \<open>2\<^sup>k \<le> a\<close>, found by bisection
  (\<open>lo\<close> when there is none). Eleven steps cover the exponents of binary64.
\<close>

fun exponentSearch :: "nat \<Rightarrow> real \<Rightarrow> int \<Rightarrow> int \<Rightarrow> int" where
  "exponentSearch 0 a lo hi = lo"
| "exponentSearch (Suc n) a lo hi =
     (if hi \<le> lo then lo
      else (let mid = (lo + hi + 1) div 2
            in if pow2 mid \<le> a then exponentSearch n a mid hi
               else exponentSearch n a lo (mid - 1)))"

text \<open>
  The binary exponent of a magnitude: \<open>\<lfloor>log\<^sub>2 a\<rfloor>\<close>, kept between \<open>-1022\<close> (below it
  the values are subnormal) and \<open>1023\<close>.
\<close>

definition exponentOf :: "real \<Rightarrow> int" where
  "exponentOf a = exponentSearch 11 a (- 1022) 1023"

text \<open>Rounding to the nearest integer, a tie to the even one; \<open>f\<close> is \<open>\<lfloor>x\<rfloor>\<close>.\<close>

definition tieToEven :: "real \<Rightarrow> int \<Rightarrow> int" where
  "tieToEven x f =
     (if x - of_int f < 1 / 2 then f
      else if 1 / 2 < x - of_int f then f + 1
      else if even f then f else f + 1)"

definition roundHalfEven :: "real \<Rightarrow> int" where
  "roundHalfEven x = tieToEven x \<lfloor>x\<rfloor>"

text \<open>
  Rounding a real to binary64: the magnitude is written as a multiple of the unit in
  the last place \<open>2\<^sup>e\<close>, \<open>e\<close> its exponent less 52, the multiple is rounded to an
  integer, and a result of \<open>2\<^sup>1\<^sup>0\<^sup>2\<^sup>4\<close> or more is an infinity.
\<close>

definition withSign :: "real \<Rightarrow> real \<Rightarrow> number" where
  "withSign r v =
     (if pow2 1024 \<le> v then (if r < 0 then NegInfinity else Infinity)
      else Finite (if r < 0 then - v else v))"

definition roundAt :: "real \<Rightarrow> int \<Rightarrow> number" where
  "roundAt r e = withSign r (of_int (roundHalfEven (\<bar>r\<bar> / pow2 e)) * pow2 e)"

definition round64 :: "real \<Rightarrow> number" where
  "round64 r = roundAt r (exponentOf \<bar>r\<bar> - 52)"

text \<open>The operators \<^verbatim>\<open>+\<close>, unary and binary \<^verbatim>\<open>-\<close>, and \<^verbatim>\<open>*\<close> on numbers.\<close>

fun add64 :: "number \<Rightarrow> number \<Rightarrow> number" where
  "add64 (Finite a) (Finite b) = round64 (a + b)"
| "add64 NaN y = NaN"
| "add64 x NaN = NaN"
| "add64 Infinity NegInfinity = NaN"
| "add64 NegInfinity Infinity = NaN"
| "add64 Infinity y = Infinity"
| "add64 NegInfinity y = NegInfinity"
| "add64 x Infinity = Infinity"
| "add64 x NegInfinity = NegInfinity"

fun neg64 :: "number \<Rightarrow> number" where
  "neg64 (Finite a) = Finite (- a)"
| "neg64 Infinity = NegInfinity"
| "neg64 NegInfinity = Infinity"
| "neg64 NaN = NaN"

definition sub64 :: "number \<Rightarrow> number \<Rightarrow> number" where
  "sub64 x y = add64 x (neg64 y)"

definition signOf :: "number \<Rightarrow> int" where
  "signOf x =
     (case x of
        Finite a \<Rightarrow> (if a < 0 then - 1 else if a = 0 then 0 else 1)
      | Infinity \<Rightarrow> 1
      | NegInfinity \<Rightarrow> - 1
      | NaN \<Rightarrow> 0)"

definition mul64 :: "number \<Rightarrow> number \<Rightarrow> number" where
  "mul64 x y =
     (case (x, y) of
        (Finite a, Finite b) \<Rightarrow> round64 (a * b)
      | _ \<Rightarrow>
          if x = NaN \<or> y = NaN \<or> signOf x * signOf y = 0 then NaN
          else if 0 < signOf x * signOf y then Infinity
          else NegInfinity)"

text \<open>\<^verbatim>\<open>function finiteNumber(x) { return Number.isFinite(x); }\<close>\<close>

definition finiteNumber :: "number \<Rightarrow> bool" where
  "finiteNumber x = (case x of Finite a \<Rightarrow> True | _ \<Rightarrow> False)"

text \<open>
  Every \<^verbatim>\<open>throw\<close> of the source is a value of \<open>error\<close>:
  \<^item> \<open>InvalidViewBox\<close>: \<^verbatim>\<open>Error('Unknown viewBox definition: ...')\<close>;
  \<^item> \<open>MalformedTransform\<close>: \<^verbatim>\<open>Error('Unknown transformation record: ...')\<close> and
    \<^verbatim>\<open>Error('Only matrix(a,b,c,d,e,f) is supported at the moment')\<close>;
  \<^item> \<open>UnbalancedTransformStack\<close>: \<^verbatim>\<open>Error('Nothing to pop')\<close>;
  \<^item> \<open>InvalidNumericAttribute\<close>: \<^verbatim>\<open>Error('Element ... does not have a finite numeric attribute ...')\<close>;
  \<^item> \<open>DuplicateNodeName\<close>: \<^verbatim>\<open>Error('Duplicate node name ...')\<close>;
  \<^item> \<open>TypeError\<close>: the engine's error for a property read or a method call on
    \<^verbatim>\<open>undefined\<close>.
\<close>

datatype error =
    InvalidViewBox
  | MalformedTransform
  | UnbalancedTransformStack
  | InvalidNumericAttribute
  | DuplicateNodeName
  | TypeError
subsection \<open>Strings and the string built-ins the source calls\<close>

text \<open>
  A string is the list of its UTF-16 code units. \<open>js\<close> writes a string literal of the
  source, whose characters are all ASCII.
\<close>

type_synonym codeUnit = "16 word"

type_synonym jsString = "codeUnit list"

definition js :: "string \<Rightarrow> jsString" where
  "js s = map (\<lambda>c. of_nat (of_char c)) s"

text \<open>\<^verbatim>\<open>str.split(sep)\<close> for a separator of one code unit.\<close>

fun js_split :: "codeUnit \<Rightarrow> jsString \<Rightarrow> jsString list" where
  "js_split sep [] = [[]]"
| "js_split sep (c # cs) =
     (if c = sep then [] # js_split sep cs
      else (case js_split sep cs of
              [] \<Rightarrow> [[c]]
            | t # ts \<Rightarrow> (c # t) # ts))"

definition isDigit :: "codeUnit \<Rightarrow> bool" where
  "isDigit c = (0x30 \<le> c \<and> c \<le> 0x39)"

text \<open>
  The white space \<^verbatim>\<open>Number.parseFloat\<close> skips: TAB, LF, VT, FF, CR, the space, the
  no-break space, the other space separators of Unicode, the line and the paragraph
  separator, and the byte order mark.
\<close>

definition isWhiteSpace :: "codeUnit \<Rightarrow> bool" where
  "isWhiteSpace c =
     (c \<in> set [0x09, 0x0A, 0x0B, 0x0C, 0x0D, 0x20, 0xA0, 0x1680, 0x2028, 0x2029, 0x202F,
                0x205F, 0x3000, 0xFEFF]
      \<or> (0x2000 \<le> c \<and> c \<le> 0x200A))"

definition digitValue :: "codeUnit \<Rightarrow> nat" where
  "digitValue c = unat c - 48"

definition digitsValue :: "jsString \<Rightarrow> nat" where
  "digitsValue ds = foldl (\<lambda>acc d. 10 * acc + digitValue d) 0 ds"

text \<open>
  The exponent part of a decimal literal: \<^verbatim>\<open>e\<close> or \<^verbatim>\<open>E\<close>, an optional sign and
  at least one digit; anything else is no exponent (the literal ends before it).
\<close>

definition exponentPart :: "jsString \<Rightarrow> int" where
  "exponentPart s =
     (case s of
        [] \<Rightarrow> 0
      | e # r \<Rightarrow>
          if e = 0x65 \<or> e = 0x45 then
            (case r of
               [] \<Rightarrow> 0
             | sg # r' \<Rightarrow>
                 if sg = 0x2D then
                   (if takeWhile isDigit r' = [] then 0
                    else - int (digitsValue (takeWhile isDigit r')))
                 else if sg = 0x2B then int (digitsValue (takeWhile isDigit r'))
                 else int (digitsValue (takeWhile isDigit r)))
          else 0)"

definition scale10 :: "real \<Rightarrow> int \<Rightarrow> real" where
  "scale10 v e = (if 0 \<le> e then v * 10 ^ nat e else v / 10 ^ nat (- e))"

text \<open>
  \<^verbatim>\<open>Number.parseFloat\<close>: leading white space is skipped, the longest prefix that is
  a decimal literal (sign, \<^verbatim>\<open>Infinity\<close> or digits, fraction, exponent) gives the
  value, the rest of the string is ignored, and the decimal value is rounded to
  binary64 (a literal too large becomes an infinity). Without such a prefix the result
  is \<^verbatim>\<open>NaN\<close>. The decimal value is rounded in one step whatever the number of its
  digits, as V8 does.
\<close>

definition parseFloat :: "jsString \<Rightarrow> number" where
  "parseFloat str =
     (let s = dropWhile isWhiteSpace str;
          negative = (take 1 s = js ''-'');
          s1 = (if take 1 s = js ''-'' \<or> take 1 s = js ''+'' then drop 1 s else s);
          ip = takeWhile isDigit s1;
          s2 = dropWhile isDigit s1;
          fp = (if take 1 s2 = js ''.'' then takeWhile isDigit (drop 1 s2) else []);
          s3 = (if take 1 s2 = js ''.'' then dropWhile isDigit (drop 1 s2) else s2)
      in if take 8 s1 = js ''Infinity'' then (if negative then NegInfinity else Infinity)
         else if ip = [] \<and> fp = [] then NaN
         else
           let v = round64 (scale10 (real (digitsValue (ip @ fp)) / 10 ^ length fp)
                              (exponentPart s3))
           in if negative then neg64 v else v)"

text \<open>\<^verbatim>\<open>.map((x) => Number.parseFloat(x)).filter(finiteNumber)\<close>\<close>

definition finiteFloats :: "jsString list \<Rightarrow> number list" where
  "finiteFloats toks = filter finiteNumber (map parseFloat toks)"
section \<open>The transform parser\<close>

text \<open>
  \<^verbatim>\<open>createTransformParser\<close> closes over four variables; they are the fields of the
  record. The stack is a JavaScript array: \<^verbatim>\<open>push\<close> appends, \<^verbatim>\<open>pop\<close> removes the
  last element, \<^verbatim>\<open>forEach\<close> runs from the first.
\<close>

record transformParser =
  isDirty :: bool
  tx :: number
  ty :: number
  transformStack :: "number list list"

definition createTransformParser :: transformParser where
  "createTransformParser =
     \<lparr>isDirty = False, tx = Finite 0, ty = Finite 0, transformStack = []\<rparr>"

definition lowerAscii :: "codeUnit \<Rightarrow> codeUnit" where
  "lowerAscii c = (if 0x41 \<le> c \<and> c \<le> 0x5A then c + 0x20 else c)"

definition isLineTerminator :: "codeUnit \<Rightarrow> bool" where
  "isLineTerminator c = (c \<in> set [0x0A, 0x0D, 0x2028, 0x2029])"

text \<open>
  What remains after \<^verbatim>\<open>matrix(\<close> must be \<^verbatim>\<open>(.+)\)$\<close>: at least one code unit
  that is no line terminator, then a closing parenthesis at the end of the string.
\<close>

definition matrixBody :: "jsString \<Rightarrow> jsString option" where
  "matrixBody r =
     (if 2 \<le> length r \<and> last r = 0x29 \<and> \<not> list_ex isLineTerminator (butlast r)
      then Some (butlast r) else None)"

text \<open>
  \<^verbatim>\<open>str.match(/matrix\((.+)\)$/i)\<close>: the leftmost position where the pattern matches,
  letters compared without case; the result is the captured group.
\<close>

fun matchMatrix :: "jsString \<Rightarrow> jsString option" where
  "matchMatrix [] = None"
| "matchMatrix (c # cs) =
     (if map lowerAscii (take 7 (c # cs)) = js ''matrix(''
         \<and> matrixBody (drop 7 (c # cs)) \<noteq> None
      then matrixBody (drop 7 (c # cs))
      else matchMatrix cs)"

definition parseTransform :: "jsString \<Rightarrow> error + number list" where
  "parseTransform str =
     (case matchMatrix str of
        None \<Rightarrow> Inl MalformedTransform
      | Some transformNumbers \<Rightarrow>
          (let coefficients = finiteFloats (js_split 0x2C transformNumbers)
           in if length coefficients \<noteq> 6 then Inl MalformedTransform
              else Inr coefficients))"

text \<open>
  A call that throws leaves the closure's variables as they were at the
  \<^verbatim>\<open>throw\<close>, so every operation returns the state together with its result:
  \<open>Some e\<close> when it threw \<open>e\<close>. \<^verbatim>\<open>pushTransform\<close> sets the dirty flag before it
  parses.
\<close>

definition pushTransform :: "jsString \<Rightarrow> transformParser \<Rightarrow> error option \<times> transformParser" where
  "pushTransform transformStr p =
     (let p1 = p\<lparr>isDirty := True\<rparr>
      in case parseTransform transformStr of
           Inl e \<Rightarrow> (Some e, p1)
         | Inr coefficients \<Rightarrow>
             (None, p1\<lparr>transformStack := transformStack p1 @ [coefficients]\<rparr>))"

definition popTransform :: "transformParser \<Rightarrow> error option \<times> transformParser" where
  "popTransform p =
     (if length (transformStack p) = 0 then (Some UnbalancedTransformStack, p)
      else (None, p\<lparr>transformStack := butlast (transformStack p), isDirty := True\<rparr>))"

definition updateTransform :: "transformParser \<Rightarrow> transformParser" where
  "updateTransform p =
     (if \<not> isDirty p then p
      else p\<lparr>tx := fold (\<lambda>record t. add64 t (record ! 4)) (transformStack p) (Finite 0),
             ty := fold (\<lambda>record t. add64 t (record ! 5)) (transformStack p) (Finite 0),
             isDirty := False\<rparr>)"

definition transform ::
  "number \<Rightarrow> number \<Rightarrow> transformParser \<Rightarrow> (number \<times> number \<times> number) \<times> transformParser" where
  "transform x y p =
     (let p1 = updateTransform p in ((add64 x (tx p1), sub64 y (ty p1), Finite 0), p1))"

text \<open>
  The states of a parser are those reached from \<^verbatim>\<open>createTransformParser()\<close> by any
  sequence of calls of its three methods, whether a call returned or threw.
\<close>

datatype parserCall =
    PushTransform jsString
  | PopTransform
  | Transform number number

fun parserStep :: "parserCall \<Rightarrow> transformParser \<Rightarrow> transformParser" where
  "parserStep (PushTransform str) p = snd (pushTransform str p)"
| "parserStep PopTransform p = snd (popTransform p)"
| "parserStep (Transform x y) p = snd (transform x y p)"

definition parserAfter :: "parserCall list \<Rightarrow> transformParser" where
  "parserAfter calls = fold parserStep calls createTransformParser"

text \<open>
  The sums of the fifth and of the sixth coefficient over the active transforms: the
  coefficients are added from the first record to the last, starting at 0, with the
  \<^verbatim>\<open>+\<close> of numbers.
\<close>

definition sumE :: "number list list \<Rightarrow> number" where
  "sumE stack = foldl add64 (Finite 0) (map (\<lambda>record. record ! 4) stack)"

definition sumF :: "number list list \<Rightarrow> number" where
  "sumF stack = foldl add64 (Finite 0) (map (\<lambda>record. record ! 5) stack)"

section \<open>The view box and the attribute readers\<close>

record viewBox =
  left :: number
  top_vb :: number
  width :: number
  height :: number

text \<open>\<^verbatim>\<open>a || b\<close> on an attribute value: \<^verbatim>\<open>undefined\<close> and the empty string are falsy.\<close>

definition orDefault :: "jsString option \<Rightarrow> jsString \<Rightarrow> jsString" where
  "orDefault a b = (case a of None \<Rightarrow> b | Some s \<Rightarrow> if s = [] then b else s)"

text \<open>
  The \<^verbatim>\<open>svg\<close> branch of \<^verbatim>\<open>handleElementStart\<close> up to the assignment of
  \<^verbatim>\<open>viewBox\<close>; the argument is \<^verbatim>\<open>element.attributes.get('viewBox')\<close>.
\<close>

definition parseViewBox :: "jsString option \<Rightarrow> error + viewBox" where
  "parseViewBox attr =
     (let viewBoxArr = finiteFloats (js_split 0x20 (orDefault attr (js ''0 0 1024 1024'')))
      in if length viewBoxArr \<noteq> 4 then Inl InvalidViewBox
         else Inr \<lparr>left = viewBoxArr ! 0, top_vb = viewBoxArr ! 1,
                   width = viewBoxArr ! 2, height = viewBoxArr ! 3\<rparr>)"

text \<open>
  An element of the streaming parser: its tag, its attribute map and the attribute map
  of its parent (\<open>None\<close> when \<^verbatim>\<open>el.parent\<close> is \<^verbatim>\<open>undefined\<close>).
\<close>

record element =
  tagName :: jsString
  attributes :: "jsString \<rightharpoonup> jsString"
  parent :: "(jsString \<rightharpoonup> jsString) option"

text \<open>
  \<^verbatim>\<open>Number.parseFloat(undefined)\<close> parses the string \<^verbatim>\<open>"undefined"\<close>, which is
  \<^verbatim>\<open>NaN\<close>.
\<close>

definition getNumericAttribute :: "element \<Rightarrow> jsString \<Rightarrow> error + number" where
  "getNumericAttribute el name' =
     (let value =
            parseFloat (case attributes el name' of None \<Rightarrow> js ''undefined'' | Some s \<Rightarrow> s)
      in if \<not> finiteNumber value then Inl InvalidNumericAttribute else Inr value)"

definition getTextAttribute :: "(jsString \<rightharpoonup> jsString) \<Rightarrow> jsString \<Rightarrow> jsString" where
  "getTextAttribute attrs name' = orDefault (attrs name') []"

text \<open>
  \<^verbatim>\<open>transformY\<close> reads the closure variable \<^verbatim>\<open>viewBox\<close>, undefined until the
  \<^verbatim>\<open>svg\<close> element has started. The source's expression is
  \<^verbatim>\<open>viewBox.height + viewBox.top - y\<close>: the sum first, then the difference, each
  rounded.
\<close>

definition transformY :: "viewBox option \<Rightarrow> number \<Rightarrow> error + number" where
  "transformY vb y =
     (case vb of
        None \<Rightarrow> Inl TypeError
      | Some v \<Rightarrow> Inr (sub64 (add64 (height v) (top_vb v)) y))"

section \<open>The complementary colour\<close>

text \<open>
  The colour bytes are integers from 0 to 255. The arithmetic between unpacking and
  repacking is done on exact reals.
\<close>

definition rgbToHsl :: "real \<Rightarrow> real \<Rightarrow> real \<Rightarrow> real \<times> real \<times> real" where
  "rgbToHsl r0 g0 b0 =
     (let r = r0 / 255; g = g0 / 255; b = b0 / 255;
          mx = max (max r g) b; mn = min (min r g) b;
          l = (mx + mn) / 2
      in if mx = mn then (0, 0, l)
         else
           let d = mx - mn;
               s = (if l > 0.5 then d / (2 - mx - mn) else d / (mx + mn));
               h = (if mx = r then (g - b) / d + (if g < b then 6 else 0)
                    else if mx = g then (b - r) / d + 2
                    else (r - g) / d + 4)
           in (h / 6, s, l))"

definition hue2rgb :: "real \<Rightarrow> real \<Rightarrow> real \<Rightarrow> real" where
  "hue2rgb p q t0 =
     (let t1 = (if t0 < 0 then t0 + 1 else t0);
          t = (if t1 > 1 then t1 - 1 else t1)
      in if t < 1 / 6 then p + (q - p) * 6 * t
         else if t < 1 / 2 then q
         else if t < 2 / 3 then p + (q - p) * (2 / 3 - t) * 6
         else p)"

text \<open>\<^verbatim>\<open>Math.round\<close> rounds half up: \<open>round x = \<lfloor>x + 1 / 2\<rfloor>\<close>.\<close>

definition hslToRgb :: "real \<Rightarrow> real \<Rightarrow> real \<Rightarrow> int \<times> int \<times> int" where
  "hslToRgb h s l =
     (let (r, g, b) =
            (if s = 0 then (l, l, l)
             else
               let q = (if l < 0.5 then l * (1 + s) else l + s - l * s);
                   p = 2 * l - q
               in (hue2rgb p q (h + 1 / 3), hue2rgb p q h, hue2rgb p q (h - 1 / 3)))
      in (round (r * 255), round (g * 255), round (b * 255)))"

text \<open>
  \<^verbatim>\<open>(r0 << 24) | (g0 << 16) | (b0 << 8) | alpha\<close>: the operands are taken to 32 bits,
  shifted and joined.
\<close>

definition packRGBA :: "int \<times> int \<times> int \<Rightarrow> rgba \<Rightarrow> rgba" where
  "packRGBA rgb alpha =
     (case rgb of (r0, g0, b0) \<Rightarrow>
        push_bit 24 (word_of_int r0) OR push_bit 16 (word_of_int g0)
          OR push_bit 8 (word_of_int b0) OR alpha)"

text \<open>
  \<^verbatim>\<open>getComplimentaryColor(color, lightningFactor = 1.4, alpha = 0xaa)\<close>. The shift
  \<^verbatim>\<open>>>\<close> is the signed one; the mask keeps one byte.
\<close>

definition getComplimentaryColor :: "rgba \<Rightarrow> real \<Rightarrow> rgba \<Rightarrow> rgba" where
  "getComplimentaryColor color' lightningFactor alpha =
     (let r = signed_drop_bit 24 color' AND 0xff;
          g = signed_drop_bit 16 color' AND 0xff;
          b = signed_drop_bit 8 color' AND 0xff;
          (h, s, l) = rgbToHsl (real (unat r)) (real (unat g)) (real (unat b));
          factor = (if l > 0.5 then 0.8 else lightningFactor)
      in packRGBA (hslToRgb h s (min 1 (l * factor))) alpha)"

definition hexColor :: "int \<times> int \<times> int \<Rightarrow> rgba" where
  "hexColor rgbArray = packRGBA rgbArray 0xff"

section \<open>The renderer's state and the ingestion of elements\<close>

record nodeUI =
  componentId :: jsString
  position :: "number \<times> number \<times> number"
  color :: number
  size_ui :: number
  id_ui :: nat
  name :: jsString

record border =
  polygon :: "(number \<times> number) list"
  borderColor :: rgba

text \<open>
  The variables \<^verbatim>\<open>createStreamingSVGRenderer\<close> closes over that ingestion and the
  highlights read or write. A \<^verbatim>\<open>Map\<close> is a partial function; a \<^verbatim>\<open>Set\<close> of names
  is the list of its members in insertion order. \<open>boundariesFill\<close> and \<open>positions\<close>
  hold what was handed to the polygon collection and to the node list.
\<close>

record renderer =
  viewBox :: "viewBox option"
  currentTransform :: transformParser
  positions :: "nodeUI list"
  nodeNameToUI :: "jsString \<rightharpoonup> nodeUI"
  nodesByComponent :: "jsString \<rightharpoonup> jsString list"
  complimentaryColor :: "jsString \<rightharpoonup> rgba"
  clusterColors :: "jsString \<rightharpoonup> rgba"
  boundariesFill :: "border list"

definition createStreamingSVGRenderer :: renderer where
  "createStreamingSVGRenderer =
     \<lparr>viewBox = None, currentTransform = createTransformParser, positions = [],
      nodeNameToUI = Map.empty, nodesByComponent = Map.empty,
      complimentaryColor = Map.empty, clusterColors = Map.empty, boundariesFill = []\<rparr>"

text \<open>
  The two functions of the package \<^verbatim>\<open>streaming-svg-parser\<close> that \<^verbatim>\<open>parseBorder\<close>
  calls are parameters of the model.
\<close>

record svgParser =
  getPointsFromPathData :: "jsString option \<Rightarrow> (number \<times> number) list"
  getElementFillColor :: "element \<Rightarrow> int \<times> int \<times> int"

text \<open>\<^verbatim>\<open>Set.prototype.add\<close>.\<close>

definition setAdd :: "jsString \<Rightarrow> jsString list \<Rightarrow> jsString list" where
  "setAdd x xs = (if x \<in> set xs then xs else xs @ [x])"

text \<open>
  The node's name: \<^verbatim>\<open>getTextAttribute(el, 'id')\<close>, without its first character when
  that is an underscore.
\<close>

definition nodeNameOf :: "element \<Rightarrow> jsString" where
  "nodeNameOf el =
     (let nodeName = getTextAttribute (attributes el) (js ''id'')
      in if take 1 nodeName = js ''_'' then drop 1 nodeName else nodeName)"

definition addNode :: "element \<Rightarrow> renderer \<Rightarrow> error option \<times> renderer" where
  "addNode el st =
     (case getNumericAttribute el (js ''cx'') of
        Inl e \<Rightarrow> (Some e, st)
      | Inr x \<Rightarrow>
     (case getNumericAttribute el (js ''cy'') of
        Inl e \<Rightarrow> (Some e, st)
      | Inr cy \<Rightarrow>
     (case transformY (viewBox st) cy of
        Inl e \<Rightarrow> (Some e, st)
      | Inr y \<Rightarrow>
     (case getNumericAttribute el (js ''r'') of
        Inl e \<Rightarrow> (Some e, st)
      | Inr r \<Rightarrow>
     (let nodeName = nodeNameOf el
      in if nodeNameToUI st nodeName \<noteq> None then (Some DuplicateNodeName, st)
         else
           (case parent el of
              None \<Rightarrow> (Some TypeError, st)
            | Some parentAttributes \<Rightarrow>
                (let componentId' = getTextAttribute parentAttributes (js ''id'');
                     neighbors =
                       (case nodesByComponent st componentId' of
                          None \<Rightarrow> []
                        | Some ns \<Rightarrow> ns);
                     (position', p) = transform x y (currentTransform st);
                     ui = \<lparr>componentId = componentId', position = position',
                           color = Finite 0xdcdcdcff, size_ui = mul64 r (Finite 2),
                           id_ui = length (positions st), name = nodeName\<rparr>
                 in (None,
                     st\<lparr>nodesByComponent :=
                          (nodesByComponent st)(componentId' \<mapsto> setAdd nodeName neighbors),
                        currentTransform := p,
                        nodeNameToUI := (nodeNameToUI st)(nodeName \<mapsto> ui),
                        positions := positions st @ [ui]\<rparr>))))))))"

text \<open>
  \<^verbatim>\<open>parseBorder\<close> maps every point through \<^verbatim>\<open>transformY\<close> and
  \<^verbatim>\<open>currentTransform.transform\<close>, one after the other.
\<close>

fun transformPoints ::
  "viewBox option \<Rightarrow> (number \<times> number) list \<Rightarrow> transformParser
     \<Rightarrow> (error + (number \<times> number) list) \<times> transformParser" where
  "transformPoints vb [] p = (Inr [], p)"
| "transformPoints vb ((x, y) # pts) p =
     (case transformY vb y of
        Inl e \<Rightarrow> (Inl e, p)
      | Inr y' \<Rightarrow>
          (case transform x y' p of
             ((x0, y0, z0), p1) \<Rightarrow>
               (case transformPoints vb pts p1 of
                  (Inl e, p2) \<Rightarrow> (Inl e, p2)
                | (Inr rest, p2) \<Rightarrow> (Inr ((x0, y0) # rest), p2))))"

definition parseBorder ::
  "svgParser \<Rightarrow> element \<Rightarrow> renderer
     \<Rightarrow> (error + (number \<times> number) list \<times> rgba) \<times> renderer" where
  "parseBorder lib el st =
     (case transformPoints (viewBox st)
             (getPointsFromPathData lib (attributes el (js ''d''))) (currentTransform st) of
        (Inl e, p) \<Rightarrow> (Inl e, st\<lparr>currentTransform := p\<rparr>)
      | (Inr points, p) \<Rightarrow>
          (Inr (points, hexColor (getElementFillColor lib el)), st\<lparr>currentTransform := p\<rparr>))"

definition addBorder :: "svgParser \<Rightarrow> element \<Rightarrow> renderer \<Rightarrow> error option \<times> renderer" where
  "addBorder lib el st =
     (case parseBorder lib el st of
        (Inl e, st1) \<Rightarrow> (Some e, st1)
      | (Inr (points, color'), st1) \<Rightarrow>
          (let st2 = st1\<lparr>boundariesFill :=
                          boundariesFill st1 @ [\<lparr>polygon = points, borderColor = color'\<rparr>]\<rparr>
           in case attributes el (js ''id'') of
                None \<Rightarrow> (Some TypeError, st2)
              | Some i \<Rightarrow>
                  (let clusterId = drop 1 i
                   in (None,
                       st2\<lparr>clusterColors := (clusterColors st2)(clusterId \<mapsto> color'),
                           complimentaryColor :=
                             (complimentaryColor st2)
                               (clusterId \<mapsto> getComplimentaryColor color' 1.4 0xaa)\<rparr>))))"

definition handleElementStart ::
  "svgParser \<Rightarrow> element \<Rightarrow> renderer \<Rightarrow> error option \<times> renderer" where
  "handleElementStart lib el st =
     (if tagName el = js ''svg'' then
        (case parseViewBox (attributes el (js ''viewBox'')) of
           Inl e \<Rightarrow> (Some e, st)
         | Inr vb \<Rightarrow> (None, st\<lparr>viewBox := Some vb\<rparr>))
      else if tagName el = js ''path'' then addBorder lib el st
      else if tagName el = js ''circle'' then addNode el st
      else
        (let transform' = orDefault (attributes el (js ''transform'')) []
         in if transform' = [] then (None, st)
            else (case pushTransform transform' (currentTransform st) of
                    (e, p) \<Rightarrow> (e, st\<lparr>currentTransform := p\<rparr>))))"

definition handleElementEnd :: "element \<Rightarrow> renderer \<Rightarrow> error option \<times> renderer" where
  "handleElementEnd el st =
     (let transform' = orDefault (attributes el (js ''transform'')) []
      in if transform' = [] then (None, st)
         else (case popTransform (currentTransform st) of
                 (e, p) \<Rightarrow> (e, st\<lparr>currentTransform := p\<rparr>)))"

text \<open>
  The loader calls the two handlers in document order. \<open>rendererAfter\<close> is the state
  after a sequence of such calls on a fresh renderer, whether a call returned or threw:
  the state a pass leaves that stops at the first error is the state after a prefix.
\<close>

datatype event =
    ElementStart element
  | ElementEnd element

fun handleEvent :: "svgParser \<Rightarrow> event \<Rightarrow> renderer \<Rightarrow> error option \<times> renderer" where
  "handleEvent lib (ElementStart el) st = handleElementStart lib el st"
| "handleEvent lib (ElementEnd el) st = handleElementEnd el st"

definition rendererAfter :: "svgParser \<Rightarrow> event list \<Rightarrow> renderer" where
  "rendererAfter lib events =
     fold (\<lambda>ev st. snd (handleEvent lib ev st)) events createStreamingSVGRenderer"

section \<open>The link graph\<close>

text \<open>
  Modelled from the spec: the link graph. The renderer gets it from
  \<^verbatim>\<open>loader.getGraph()\<close> (\<^verbatim>\<open>createSVGLoader.js\<close>, which is not among the sources) and
  builds the subgraph with \<^verbatim>\<open>createGraph()\<close> of the package \<^verbatim>\<open>ngraph.graph\<close>; the
  spec lists \<^verbatim>\<open>forEachLinkedNode(name, visitor)\<close>, \<^verbatim>\<open>hasLink(a, b)\<close>,
  \<^verbatim>\<open>addNode\<close> and \<^verbatim>\<open>addLink\<close> as its interface. A graph is the list of its links
  in the order they were added. \<open>forEachLinkedNode g n\<close> is the sequence of visits the
  visitor gets for \<open>n\<close>: for every link that touches \<open>n\<close>, the node at the far end
  (\<^verbatim>\<open>other.id\<close>) and the link. \<open>hasLink\<close> looks for a link from its first argument
  to its second; an argument that is no node id has no link.
\<close>

record graphLink =
  fromId :: jsString
  toId :: jsString

type_synonym graph = "graphLink list"

definition forEachLinkedNode :: "graph \<Rightarrow> jsString \<Rightarrow> (jsString \<times> graphLink) list" where
  "forEachLinkedNode g nodeId =
     map (\<lambda>link. (if fromId link = nodeId then toId link else fromId link, link))
       (filter (\<lambda>link. fromId link = nodeId \<or> toId link = nodeId) g)"

datatype nodeKey =
    NodeId jsString
  | GraphObject

definition hasLink :: "graph \<Rightarrow> nodeKey \<Rightarrow> nodeKey \<Rightarrow> bool" where
  "hasLink g a b =
     (case (a, b) of
        (NodeId x, NodeId y) \<Rightarrow> list_ex (\<lambda>link. fromId link = x \<and> toId link = y) g
      | _ \<Rightarrow> False)"

section \<open>Highlights\<close>

text \<open>The two colours of \<^verbatim>\<open>constants.js\<close> (not among the sources) are parameters.\<close>

record colors =
  PRIMARY_HIGHLIGHT_COLOR :: number
  SECONDARY_HIGHLIGHT_COLOR :: number

text \<open>
  \<^verbatim>\<open>const hlNode = {...nodeNameToUI.get(id)}; hlNode.color = c\<close>: a copy of the
  record with its colour replaced, or an object with nothing but a colour when the
  name is not in the map.
\<close>

datatype hlNode =
    Copy nodeUI
  | OnlyColor number

definition highlightCopy :: "nodeUI option \<Rightarrow> number \<Rightarrow> hlNode" where
  "highlightCopy ui c = (case ui of None \<Rightarrow> OnlyColor c | Some u \<Rightarrow> Copy (u\<lparr>color := c\<rparr>))"

text \<open>
  The visitor of \<^verbatim>\<open>getHighlightedNodes\<close>, run over the visits in order. It pushes,
  then calls \<^verbatim>\<open>neighbors.has\<close>, which is a \<open>TypeError\<close> when \<^verbatim>\<open>neighbors\<close> is
  undefined; what \<^verbatim>\<open>has\<close> answers changes nothing.
\<close>

fun highlightLinked ::
  "colors \<Rightarrow> renderer \<Rightarrow> jsString list option \<Rightarrow> (jsString \<times> graphLink) list \<Rightarrow> hlNode list
     \<Rightarrow> error + hlNode list" where
  "highlightLinked C st neighbors [] nodeUIs = Inr nodeUIs"
| "highlightLinked C st neighbors ((other, link) # rest) nodeUIs =
     (let nodeUIs' =
            nodeUIs @ [highlightCopy (nodeNameToUI st other) (SECONDARY_HIGHLIGHT_COLOR C)]
      in case neighbors of
           None \<Rightarrow> Inl TypeError
         | Some ns \<Rightarrow> highlightLinked C st neighbors rest nodeUIs')"

text \<open>The first argument after the colours is \<^verbatim>\<open>loader && loader.getGraph()\<close>.\<close>

definition getHighlightedNodes ::
  "colors \<Rightarrow> graph option \<Rightarrow> renderer \<Rightarrow> nodeUI \<Rightarrow> error + hlNode list" where
  "getHighlightedNodes C graph' st ui =
     (case graph' of
        None \<Rightarrow> Inr []
      | Some g \<Rightarrow>
          (let neighbors = nodesByComponent st (componentId ui);
               hl = highlightCopy (nodeNameToUI st (name ui)) (PRIMARY_HIGHLIGHT_COLOR C)
           in highlightLinked C st neighbors (forEachLinkedNode g (name ui)) [hl]))"

record linkUI =
  fromPos :: "number \<times> number \<times> number"
  toPos :: "number \<times> number \<times> number"
  linkColor :: "rgba option"
  isFirstLevel :: bool

definition maxLinks :: nat where
  "maxLinks = 10"

text \<open>
  The inner visitor of \<^verbatim>\<open>getHighlightedLinks\<close> for one \<^verbatim>\<open>neighborId\<close>, run over
  the visits in order with the counter \<^verbatim>\<open>idx\<close> and the array \<^verbatim>\<open>linkUIs\<close>.
\<close>

fun linksOfNeighbor ::
  "renderer \<Rightarrow> nodeUI \<Rightarrow> jsString list \<Rightarrow> rgba option \<Rightarrow> jsString \<Rightarrow> (jsString \<times> graphLink) list
     \<Rightarrow> nat \<Rightarrow> linkUI list \<Rightarrow> error + linkUI list" where
  "linksOfNeighbor st ui neighbors secondaryLinkColor neighborId [] idx linkUIs = Inr linkUIs"
| "linksOfNeighbor st ui neighbors secondaryLinkColor neighborId ((other, link) # rest) idx linkUIs =
     (if other \<notin> set neighbors then
        linksOfNeighbor st ui neighbors secondaryLinkColor neighborId rest idx linkUIs
      else
        (let firstLevel = (neighborId = name ui \<or> other = name ui)
         in if idx > maxLinks \<and> \<not> firstLevel then
              linksOfNeighbor st ui neighbors secondaryLinkColor neighborId rest idx linkUIs
            else
              (case nodeNameToUI st neighborId of
                 None \<Rightarrow> Inl TypeError
               | Some a \<Rightarrow>
                   (case nodeNameToUI st other of
                      None \<Rightarrow> Inl TypeError
                    | Some b \<Rightarrow>
                        linksOfNeighbor st ui neighbors secondaryLinkColor neighborId rest
                          (idx + 1)
                          (linkUIs @
                             [\<lparr>fromPos = position a, toPos = position b,
                               linkColor =
                                 (if firstLevel then Some 0xffffffff else secondaryLinkColor),
                               isFirstLevel = firstLevel\<rparr>])))))"

text \<open>\<^verbatim>\<open>neighbors.forEach\<close>: the outer loop, with \<^verbatim>\<open>idx = 0\<close> at each member.\<close>

fun linksOfNeighbors ::
  "graph \<Rightarrow> renderer \<Rightarrow> nodeUI \<Rightarrow> jsString list \<Rightarrow> rgba option \<Rightarrow> jsString list \<Rightarrow> linkUI list
     \<Rightarrow> error + linkUI list" where
  "linksOfNeighbors g st ui neighbors secondaryLinkColor [] linkUIs = Inr linkUIs"
| "linksOfNeighbors g st ui neighbors secondaryLinkColor (neighborId # rest) linkUIs =
     (case linksOfNeighbor st ui neighbors secondaryLinkColor neighborId
             (forEachLinkedNode g neighborId) 0 linkUIs of
        Inl e \<Rightarrow> Inl e
      | Inr linkUIs' \<Rightarrow> linksOfNeighbors g st ui neighbors secondaryLinkColor rest linkUIs')"

definition getHighlightedLinks ::
  "graph option \<Rightarrow> renderer \<Rightarrow> nodeUI \<Rightarrow> error + linkUI list" where
  "getHighlightedLinks graph' st ui =
     (case graph' of
        None \<Rightarrow> Inr []
      | Some g \<Rightarrow>
          (let secondaryLinkColor = complimentaryColor st (componentId ui)
           in case nodesByComponent st (componentId ui) of
                None \<Rightarrow> Inl TypeError
              | Some neighbors \<Rightarrow>
                  linksOfNeighbors g st ui neighbors secondaryLinkColor neighbors []))"

section \<open>The subgraph of related nodes\<close>

text \<open>
  The graph \<^verbatim>\<open>showRelated\<close> builds: the data of every node it holds (\<open>Some None\<close>
  for a node that \<^verbatim>\<open>addLink\<close> created, which has no data) and its links with their
  data, in the order they were added.
\<close>

datatype nodeData =
    IsRoot bool
  | IsFirstChild bool

record relatedLink =
  linkFrom :: jsString
  linkTo :: jsString
  isRootLevel :: bool

record subgraph =
  nodeDataOf :: "jsString \<rightharpoonup> nodeData option"
  relatedLinks :: "relatedLink list"

definition createGraph :: subgraph where
  "createGraph = \<lparr>nodeDataOf = Map.empty, relatedLinks = []\<rparr>"

definition subgraphAddNode :: "jsString \<Rightarrow> nodeData \<Rightarrow> subgraph \<Rightarrow> subgraph" where
  "subgraphAddNode nodeId d sg = sg\<lparr>nodeDataOf := (nodeDataOf sg)(nodeId \<mapsto> Some d)\<rparr>"

definition ensureNode :: "jsString \<Rightarrow> subgraph \<Rightarrow> subgraph" where
  "ensureNode nodeId sg =
     (case nodeDataOf sg nodeId of
        None \<Rightarrow> sg\<lparr>nodeDataOf := (nodeDataOf sg)(nodeId \<mapsto> None)\<rparr>
      | Some d \<Rightarrow> sg)"

definition subgraphAddLink :: "jsString \<Rightarrow> jsString \<Rightarrow> bool \<Rightarrow> subgraph \<Rightarrow> subgraph" where
  "subgraphAddLink f t rootLevel sg =
     (let sg' = ensureNode t (ensureNode f sg)
      in sg'\<lparr>relatedLinks :=
               relatedLinks sg' @ [\<lparr>linkFrom = f, linkTo = t, isRootLevel = rootLevel\<rparr>]\<rparr>)"

definition subgraphHasLink :: "subgraph \<Rightarrow> jsString \<Rightarrow> jsString \<Rightarrow> bool" where
  "subgraphHasLink sg f t = list_ex (\<lambda>l. linkFrom l = f \<and> linkTo l = t) (relatedLinks sg)"

text \<open>\<^verbatim>\<open>addNeighbors(node, neighborsSet)\<close>, the set as the list of its members.\<close>

definition addNeighbors :: "graph \<Rightarrow> jsString \<Rightarrow> jsString list \<Rightarrow> jsString list" where
  "addNeighbors g node neighborsSet =
     fold (\<lambda>(other, link). setAdd other) (forEachLinkedNode g node) neighborsSet"

text \<open>
  The visitor that \<^verbatim>\<open>showRelated\<close> passes to \<^verbatim>\<open>graph.forEachLinkedNode\<close> in
  its last loop: it adds the link unless the far end is outside the set or the subgraph
  has the link already.
\<close>

definition relateLink ::
  "jsString \<Rightarrow> jsString list \<Rightarrow> jsString \<times> graphLink \<Rightarrow> subgraph \<Rightarrow> subgraph" where
  "relateLink subreddit subgraphNodes visit sg =
     (case visit of (otherNode, link) \<Rightarrow>
        if otherNode \<notin> set subgraphNodes then sg
        else if subgraphHasLink sg (fromId link) (toId link) then sg
        else
          (let rootLevel = (fromId link = subreddit \<or> toId link = subreddit)
           in subgraphAddLink (fromId link) (toId link) rootLevel sg))"

text \<open>
  The body of \<^verbatim>\<open>subgraphNodes.forEach\<close>. The second call of \<^verbatim>\<open>hasLink\<close> in the
  source gets the object \<^verbatim>\<open>subgraph\<close> as its first argument, not the name
  \<^verbatim>\<open>subreddit\<close>.
\<close>

definition relateNode :: "graph \<Rightarrow> jsString \<Rightarrow> jsString list \<Rightarrow> jsString \<Rightarrow> subgraph \<Rightarrow> subgraph" where
  "relateNode g subreddit subgraphNodes node sg =
     (let sg1 =
            (case nodeDataOf sg node of
               Some (Some d) \<Rightarrow> sg
             | _ \<Rightarrow>
                 (let isFirstChild =
                        (hasLink g (NodeId node) (NodeId subreddit)
                         \<or> hasLink g GraphObject (NodeId node))
                  in subgraphAddNode node (IsFirstChild isFirstChild) sg))
      in fold (relateLink subreddit subgraphNodes) (forEachLinkedNode g node) sg1)"

text \<open>
  \<^verbatim>\<open>showRelated(subreddit)\<close> up to the hand-over to the visualizer. \<^verbatim>\<open>Array.from\<close>
  takes the members of the set before the second round of \<^verbatim>\<open>addNeighbors\<close> adds
  to it. Without a graph \<^verbatim>\<open>forEachLinkedNode\<close> is called on \<^verbatim>\<open>undefined\<close>.
\<close>

definition showRelated :: "graph option \<Rightarrow> jsString \<Rightarrow> error + subgraph" where
  "showRelated graph' subreddit =
     (case graph' of
        None \<Rightarrow> Inl TypeError
      | Some g \<Rightarrow>
          (let sg0 = subgraphAddNode subreddit (IsRoot True) createGraph;
               firstLevel = addNeighbors g subreddit [];
               subgraphNodes = fold (addNeighbors g) firstLevel firstLevel
           in Inr (fold (relateNode g subreddit subgraphNodes) subgraphNodes sg0)))"

section \<open>Invariants\<close>

text \<open>
  The cached offset of a transform parser is either marked stale or equal to the sums
  over the stack.
\<close>

definition cacheValid :: "transformParser \<Rightarrow> bool" where
  "cacheValid p =
     (isDirty p \<or> (tx p = sumE (transformStack p) \<and> ty p = sumF (transformStack p)))"

text \<open>Every record on the stack has the six coefficients of a matrix.\<close>

definition recordsComplete :: "transformParser \<Rightarrow> bool" where
  "recordsComplete p = list_all (\<lambda>record. length record = 6) (transformStack p)"

text \<open>
  The node list and the two indices agree: the names in \<open>positions\<close> are pairwise
  different, \<open>nodeNameToUI\<close> maps exactly the names of these records, each to its
  record, every record's name is a member of its component's set, and every member of
  a component's set is a registered name.
\<close>

definition nodesIndexed :: "renderer \<Rightarrow> bool" where
  "nodesIndexed st =
     (distinct (map name (positions st))
      \<and> (\<forall>n u. (nodeNameToUI st n = Some u) = (u \<in> set (positions st) \<and> name u = n))
      \<and> (\<forall>u \<in> set (positions st).
            \<exists>ns. nodesByComponent st (componentId u) = Some ns \<and> name u \<in> set ns)
      \<and> (\<forall>c ns n. nodesByComponent st c = Some ns \<longrightarrow> n \<in> set ns
            \<longrightarrow> nodeNameToUI st n \<noteq> None))"

text \<open>
  A number that is a value of binary64: rounding a finite one gives it back. The
  numbers the source computes with (what \<^verbatim>\<open>Number.parseFloat\<close> and the
  arithmetic operators return) all are.
\<close>

definition isDouble :: "number \<Rightarrow> bool" where
  "isDouble x = (case x of Finite r \<Rightarrow> round64 r = Finite r | _ \<Rightarrow> True)"

section \<open>Example documents\<close>

text \<open>Concrete inputs, for the examples the theorems are applied to.\<close>

definition exampleParser :: svgParser where
  "exampleParser =
     \<lparr>getPointsFromPathData = (\<lambda>d. []), getElementFillColor = (\<lambda>el. (18, 65, 130))\<rparr>"

definition svgElement :: element where
  "svgElement =
     \<lparr>tagName = js ''svg'', attributes = [js ''viewBox'' \<mapsto> js ''0 0 1024 1024''], parent = None\<rparr>"

definition svgWithViewBox :: "jsString \<Rightarrow> element" where
  "svgWithViewBox value =
     \<lparr>tagName = js ''svg'', attributes = [js ''viewBox'' \<mapsto> value], parent = None\<rparr>"

definition unitViewBox :: viewBox where
  "unitViewBox = \<lparr>left = Finite 0, top_vb = Finite 0, width = Finite 1, height = Finite 1\<rparr>"

definition circleElement :: "jsString \<Rightarrow> jsString \<Rightarrow> jsString \<Rightarrow> element" where
  "circleElement nodeId cx cluster =
     \<lparr>tagName = js ''circle'',
      attributes = [js ''id'' \<mapsto> nodeId, js ''cx'' \<mapsto> cx, js ''cy'' \<mapsto> js ''0'', js ''r'' \<mapsto> js ''1''],
      parent = Some [js ''id'' \<mapsto> cluster]\<rparr>"

definition exampleColors :: colors where
  "exampleColors = \<lparr>PRIMARY_HIGHLIGHT_COLOR = Finite 1, SECONDARY_HIGHLIGHT_COLOR = Finite 2\<rparr>"

definition twoNodeDocument :: "event list" where
  "twoNodeDocument =
     [ElementStart svgElement,
      ElementStart (circleElement (js ''_a'') (js ''1'') (js ''c1'')),
      ElementStart (circleElement (js ''b'') (js ''2'') (js ''c1''))]"

definition nodeA :: nodeUI where
  "nodeA = \<lparr>componentId = js ''c1'', position = (Finite 1, Finite 1024, Finite 0), color = Finite 0xdcdcdcff,
            size_ui = Finite 2, id_ui = 0, name = js ''a''\<rparr>"

definition nodeB :: nodeUI where
  "nodeB = \<lparr>componentId = js ''c1'', position = (Finite 2, Finite 1024, Finite 0), color = Finite 0xdcdcdcff,
            size_ui = Finite 2, id_ui = 1, name = js ''b''\<rparr>"

definition staleNode :: nodeUI where
  "staleNode = \<lparr>componentId = js ''gone'', position = (Finite 0, Finite 0, Finite 0), color = Finite 0xdcdcdcff,
                size_ui = Finite 2, id_ui = 7, name = js ''zzz''\<rparr>"

definition renamedNode :: nodeUI where
  "renamedNode = \<lparr>componentId = js ''c1'', position = (Finite 0, Finite 0, Finite 0), color = Finite 0xdcdcdcff,
                  size_ui = Finite 2, id_ui = 7, name = js ''zzz''\<rparr>"

text \<open>
  A cluster \<^verbatim>\<open>c\<close> of thirteen nodes: \<^verbatim>\<open>u\<close>, \<^verbatim>\<open>n\<close> and \<^verbatim>\<open>m1\<close> to \<^verbatim>\<open>m11\<close>, at
  \<open>x = 0, 1, \<dots>, 12\<close>; and a graph in which \<^verbatim>\<open>n\<close> has a link to each of
  \<^verbatim>\<open>m1\<close> to \<^verbatim>\<open>m11\<close> and \<^verbatim>\<open>u\<close> has none.
\<close>

definition clusterDocument :: "event list" where
  "clusterDocument =
     ElementStart svgElement #
     map (\<lambda>(nodeId, cx). ElementStart (circleElement nodeId cx (js ''c'')))
       [(js ''u'', js ''0''), (js ''n'', js ''1''), (js ''m1'', js ''2''), (js ''m2'', js ''3''), (js ''m3'', js ''4''),
        (js ''m4'', js ''5''), (js ''m5'', js ''6''), (js ''m6'', js ''7''), (js ''m7'', js ''8''), (js ''m8'', js ''9''),
        (js ''m9'', js ''10''), (js ''m10'', js ''11''), (js ''m11'', js ''12'')]"

definition starGraph :: graph where
  "starGraph =
     map (\<lambda>t. \<lparr>fromId = js ''n'', toId = t\<rparr>)
       [js ''m1'', js ''m2'', js ''m3'', js ''m4'', js ''m5'', js ''m6'', js ''m7'',
        js ''m8'', js ''m9'', js ''m10'', js ''m11'']"

definition nodeU :: nodeUI where
  "nodeU = \<lparr>componentId = js ''c'', position = (Finite 0, Finite 1024, Finite 0), color = Finite 0xdcdcdcff,
            size_ui = Finite 2, id_ui = 0, name = js ''u''\<rparr>"

definition nodeN :: nodeUI where
  "nodeN = \<lparr>componentId = js ''c'', position = (Finite 1, Finite 1024, Finite 0), color = Finite 0xdcdcdcff,
            size_ui = Finite 2, id_ui = 1, name = js ''n''\<rparr>"

text \<open>
  The graph of the spec's example: the root \<^verbatim>\<open>R\<close> links to \<^verbatim>\<open>A\<close> and to \<^verbatim>\<open>B\<close>,
  and \<^verbatim>\<open>A\<close> links to \<^verbatim>\<open>C\<close>. In the second graph the two links at the root point
  to it.
\<close>

definition rootOutGraph :: graph where
  "rootOutGraph =
     [\<lparr>fromId = js ''R'', toId = js ''A''\<rparr>, \<lparr>fromId = js ''R'', toId = js ''B''\<rparr>,
      \<lparr>fromId = js ''A'', toId = js ''C''\<rparr>]"

definition rootInGraph :: graph where
  "rootInGraph =
     [\<lparr>fromId = js ''A'', toId = js ''R''\<rparr>, \<lparr>fromId = js ''B'', toId = js ''R''\<rparr>,
      \<lparr>fromId = js ''A'', toId = js ''C''\<rparr>]"

section \<open>Properties of strings\<close>

lemma unat_codeUnit: "unat (of_nat (of_char c) :: 16 word) = of_char c"
proof -
  have "(of_char c :: nat) < 65536"
    using nat_of_char_less_256 [of c] by arith
  then show ?thesis
    by (simp add: unat_of_nat)
qed

lemma js_inj: "inj js"
  unfolding js_def
proof (rule inj_mapI, rule injI)
  fix x y :: char
  assume "(of_nat (of_char x) :: 16 word) = of_nat (of_char y)"
  then have "unat (of_nat (of_char x) :: 16 word) = unat (of_nat (of_char y) :: 16 word)"
    by simp
  then have "(of_char x :: nat) = of_char y"
    by (simp only: unat_codeUnit)
  then show "x = y"
    by simp
qed

lemma js_eq_iff [simp]: "(js a = js b) = (a = b)"
  using js_inj by (auto dest: injD)

lemma js_Nil [simp]: "js [] = []"
  by (simp add: js_def)

lemma js_eq_Nil [simp]: "(js s = []) = (s = [])"
  by (simp add: js_def)

lemma take_js [simp]: "take n (js s) = js (take n s)"
  by (simp add: js_def take_map)

lemma drop_js [simp]: "drop n (js s) = js (drop n s)"
  by (simp add: js_def drop_map)

section \<open>Properties of the rounding\<close>

lemma pow2_powi: "pow2 k = 2 powi k"
proof (cases "0 \<le> k")
  case True
  then show ?thesis
    by (simp add: pow2_def power_int_def)
next
  case False
  have "1 / 2 ^ nat (- k) = inverse (2::real) ^ nat (- k)"
    by (simp add: inverse_eq_divide power_one_over)
  with False show ?thesis
    by (simp add: pow2_def power_int_def)
qed

lemma pow2_pos: "0 < pow2 k"
  by (simp add: pow2_powi)

lemma pow2_add: "pow2 (j + k) = pow2 j * pow2 k"
  by (simp add: pow2_powi power_int_add)

lemma pow2_mono: "j \<le> k \<Longrightarrow> pow2 j \<le> pow2 k"
  by (simp add: pow2_powi power_int_increasing)

lemma pow2_strict_mono: "j < k \<Longrightarrow> pow2 j < pow2 k"
  by (simp add: pow2_powi power_int_strict_increasing)

lemma pow2_less_iff: "(pow2 j < pow2 k) = (j < k)"
  using pow2_strict_mono [of j k] pow2_mono [of k j] by fastforce

lemma pow2_le_iff: "(pow2 j \<le> pow2 k) = (j \<le> k)"
  using pow2_strict_mono [of k j] pow2_mono [of j k] by fastforce

lemma pow2_Suc: "pow2 (k + 1) = 2 * pow2 k"
  unfolding pow2_add by (simp add: pow2_def)

lemma pow2_of_nat: "pow2 (int n) = 2 ^ n"
  by (simp add: pow2_def)

lemma exponentSearch_correct:
  "lo \<le> hi \<Longrightarrow> hi - lo < 2 ^ n \<Longrightarrow>
     lo \<le> exponentSearch n a lo hi \<and> exponentSearch n a lo hi \<le> hi
     \<and> (pow2 (exponentSearch n a lo hi) \<le> a \<or> exponentSearch n a lo hi = lo)
     \<and> (a < pow2 (exponentSearch n a lo hi + 1) \<or> exponentSearch n a lo hi = hi)"
proof (induction n arbitrary: lo hi)
  case 0
  then show ?case by simp
next
  case (Suc n)
  show ?case
  proof (cases "hi \<le> lo")
    case True
    with Suc.prems show ?thesis by simp
  next
    case False
    let ?mid = "(lo + hi + 1) div 2"
    from False have m: "lo < ?mid" "?mid \<le> hi"
      by linarith+
    from Suc.prems have w: "hi - ?mid < 2 ^ n" "(?mid - 1) - lo < 2 ^ n"
      by simp_all
    show ?thesis
    proof (cases "pow2 ?mid \<le> a")
      case True
      then have e: "exponentSearch (Suc n) a lo hi = exponentSearch n a ?mid hi"
        using False by (simp add: Let_def)
      from Suc.IH [OF m(2) w(1)] True m show ?thesis
        unfolding e by auto
    next
      case c: False
      then have e: "exponentSearch (Suc n) a lo hi = exponentSearch n a lo (?mid - 1)"
        using False by (simp add: Let_def)
      define k where "k = exponentSearch n a lo (?mid - 1)"
      from m have l: "lo \<le> ?mid - 1" by simp
      from Suc.IH [OF l w(2)] have ih: "lo \<le> k" "k \<le> ?mid - 1" "pow2 k \<le> a \<or> k = lo"
        "a < pow2 (k + 1) \<or> k = ?mid - 1"
        unfolding k_def by blast+
      have "a < pow2 (k + 1)"
      proof (cases "k = ?mid - 1")
        case True
        then have "k + 1 = ?mid" by simp
        with c show ?thesis by simp
      next
        case False
        with ih(4) show ?thesis by simp
      qed
      with ih m show ?thesis
        unfolding e k_def [symmetric] by simp
    qed
  qed
qed

lemma exponentOf_correct:
  "- 1022 \<le> exponentOf a \<and> exponentOf a \<le> 1023
   \<and> (pow2 (exponentOf a) \<le> a \<or> exponentOf a = - 1022)
   \<and> (a < pow2 (exponentOf a + 1) \<or> exponentOf a = 1023)"
  unfolding exponentOf_def
  by (rule exponentSearch_correct) simp_all

lemma roundHalfEven_of_int: "roundHalfEven (of_int m) = m"
  by (simp add: roundHalfEven_def tieToEven_def)

lemma roundHalfEven_le: "x \<le> of_int m \<Longrightarrow> roundHalfEven x \<le> m"
proof -
  assume x: "x \<le> of_int m"
  show ?thesis
  proof (cases "x = of_int m")
    case True
    then show ?thesis by (simp add: roundHalfEven_of_int)
  next
    case False
    with x have "x < of_int m" by simp
    then have "\<lfloor>x\<rfloor> < m" by (simp add: floor_less_iff)
    then show ?thesis
      by (simp add: roundHalfEven_def tieToEven_def)
  qed
qed

lemma roundHalfEven_ge: "of_int m \<le> x \<Longrightarrow> m \<le> roundHalfEven x"
proof -
  assume "of_int m \<le> x"
  then have "m \<le> \<lfloor>x\<rfloor>" by (simp add: le_floor_iff)
  then show ?thesis
    by (simp add: roundHalfEven_def tieToEven_def)
qed

lemma pow2_53: "pow2 53 = 2 ^ 53"
  by (simp add: pow2_def)

lemma pow2_52: "pow2 52 = 2 ^ 52"
  by (simp add: pow2_def)

text \<open>
  A multiple of a unit in the last place that is within the range of the significand
  and below \<open>2\<^sup>1\<^sup>0\<^sup>2\<^sup>4\<close> is a value of binary64: rounding gives it back.
\<close>

lemma round64_multiple:
  assumes n0: "0 \<le> n" and n53: "n \<le> 2 ^ 53" and e: "- 1074 \<le> e"
    and v: "v = of_int n * pow2 e" and fin: "v < pow2 1024" and s: "r = v \<or> r = - v"
  shows "round64 r = Finite r"
proof -
  have v0: "0 \<le> v"
    using n0 pow2_pos [of e] v by simp
  then have abs: "\<bar>r\<bar> = v"
    using s by auto
  define k where "k = exponentOf v"
  from exponentOf_correct [of v] have kc: "- 1022 \<le> k" "pow2 k \<le> v \<or> k = - 1022"
    unfolding k_def by blast+
  have "\<exists>m. v = of_int m * pow2 (k - 52)"
  proof (cases "k - 52 \<le> e")
    case True
    define d where "d = nat (e - (k - 52))"
    from True have "e = int d + (k - 52)"
      by (simp add: d_def)
    then have "pow2 e = 2 ^ d * pow2 (k - 52)"
      by (simp only: pow2_add pow2_of_nat)
    with v have "v = of_int (n * 2 ^ d) * pow2 (k - 52)"
      by simp
    then show ?thesis by blast
  next
    case False
    then have gt: "e + 52 < k" by simp
    with e have "k \<noteq> - 1022" by simp
    with kc(2) have lo: "pow2 k \<le> v" by simp
    from n53 have "(of_int n :: real) \<le> of_int (2 ^ 53)"
      by (simp only: of_int_le_iff)
    then have "of_int n * pow2 e \<le> 2 ^ 53 * pow2 e"
      using pow2_pos [of e] by (simp add: mult_right_mono)
    also have "\<dots> = pow2 (53 + e)"
      by (simp only: pow2_add pow2_53)
    finally have hi: "v \<le> pow2 (53 + e)"
      using v by simp
    from lo hi have "pow2 k \<le> pow2 (53 + e)" by simp
    then have "k \<le> 53 + e" by (simp only: pow2_le_iff)
    with gt have k: "k = 53 + e" by simp
    with lo hi have "v = pow2 (52 + (k - 52))" by simp
    also have "\<dots> = of_int (2 ^ 52) * pow2 (k - 52)"
      by (simp only: pow2_add pow2_52) simp
    finally show ?thesis by blast
  qed
  then obtain m where m: "v = of_int m * pow2 (k - 52)" ..
  have "v / pow2 (k - 52) = of_int m"
    using m pow2_pos [of "k - 52"] by simp
  then have "roundHalfEven (v / pow2 (k - 52)) = m"
    by (simp only: roundHalfEven_of_int)
  with m have "round64 r = withSign r v"
    unfolding round64_def roundAt_def abs k_def by simp
  also have "\<dots> = Finite r"
    using fin s v0 by (auto simp: withSign_def)
  finally show ?thesis .
qed

text \<open>Rounding gives a value of binary64.\<close>

lemma round64_isDouble: "isDouble (round64 r)"
proof -
  define a where "a = \<bar>r\<bar>"
  define k where "k = exponentOf a"
  define e where "e = k - 52"
  define n where "n = roundHalfEven (a / pow2 e)"
  define v where "v = of_int n * pow2 e"
  have r: "round64 r = withSign r v"
    by (simp add: round64_def roundAt_def a_def k_def e_def n_def v_def)
  show ?thesis
  proof (cases "pow2 1024 \<le> v")
    case True
    then show ?thesis by (simp add: r withSign_def isDouble_def)
  next
    case False
    then have fin: "v < pow2 1024" by simp
    from exponentOf_correct [of a] have kc: "- 1022 \<le> k" "k \<le> 1023"
      "a < pow2 (k + 1) \<or> k = 1023"
      unfolding k_def by blast+
    have a0: "0 \<le> a" by (simp add: a_def)
    have "of_int 0 \<le> a / pow2 e"
      using a0 pow2_pos [of e] by simp
    then have n0: "0 \<le> n"
      unfolding n_def by (rule roundHalfEven_ge)
    have split: "pow2 (k + 1) = 2 ^ 53 * pow2 e"
    proof -
      have "k + 1 = 53 + e" by (simp add: e_def)
      then show ?thesis by (simp only: pow2_add pow2_53)
    qed
    have lt: "a < pow2 (k + 1)"
    proof (rule ccontr)
      assume "\<not> a < pow2 (k + 1)"
      with kc(3) have k: "k = 1023" and big: "pow2 (k + 1) \<le> a" by auto
      from big have "of_int (2 ^ 53) \<le> a / pow2 e"
        using pow2_pos [of e] by (simp add: split pos_le_divide_eq)
      then have "2 ^ 53 \<le> n"
        unfolding n_def by (rule roundHalfEven_ge)
      then have "(of_int (2 ^ 53) :: real) \<le> of_int n"
        by (simp only: of_int_le_iff)
      then have "2 ^ 53 * pow2 e \<le> v"
        using pow2_pos [of e] by (simp add: v_def mult_right_mono)
      then have "pow2 (k + 1) \<le> v"
        by (simp only: split)
      moreover have "pow2 (k + 1) = pow2 1024"
        using k by simp
      ultimately show False
        using fin by simp
    qed
    have "a / pow2 e \<le> of_int (2 ^ 53)"
      using lt pow2_pos [of e] by (simp add: split pos_divide_le_eq)
    then have n53: "n \<le> 2 ^ 53"
      unfolding n_def by (rule roundHalfEven_le)
    from kc(1) have e74: "- 1074 \<le> e" by (simp add: e_def)
    have "round64 (if r < 0 then - v else v) = Finite (if r < 0 then - v else v)"
      by (rule round64_multiple [OF n0 n53 e74 v_def fin]) simp
    with fin show ?thesis
      by (simp add: r withSign_def isDouble_def)
  qed
qed

lemma round64_minus: "round64 (- r) = neg64 (round64 r)"
proof -
  define v where
    "v = of_int (roundHalfEven (\<bar>r\<bar> / pow2 (exponentOf \<bar>r\<bar> - 52))) * pow2 (exponentOf \<bar>r\<bar> - 52)"
  have n: "0 \<le> roundHalfEven (\<bar>r\<bar> / pow2 (exponentOf \<bar>r\<bar> - 52))"
    using pow2_pos [of "exponentOf \<bar>r\<bar> - 52"] by (intro roundHalfEven_ge) simp
  then have v0: "0 \<le> v"
    using pow2_pos [of "exponentOf \<bar>r\<bar> - 52"] by (simp add: v_def)
  have z: "v = 0" if "r = 0"
    using that by (simp add: v_def roundHalfEven_def tieToEven_def)
  have "round64 (- r) = withSign (- r) v" "round64 r = withSign r v"
    by (simp_all add: round64_def roundAt_def v_def)
  then show ?thesis
    using v0 z pow2_pos [of 1024] by (cases "r = 0") (auto simp: withSign_def)
qed

lemma neg64_isDouble: "isDouble x \<Longrightarrow> isDouble (neg64 x)"
  by (cases x) (simp_all add: isDouble_def round64_minus)

lemma add64_isDouble: "isDouble (add64 x y)"
  by (cases x; cases y) (simp_all add: round64_isDouble, simp_all add: isDouble_def)

lemma sub64_isDouble: "isDouble (sub64 x y)"
  by (simp add: sub64_def add64_isDouble)

lemma mul64_isDouble: "isDouble (mul64 x y)"
  by (cases x; cases y) (simp_all add: mul64_def round64_isDouble, simp_all add: isDouble_def)

lemma parseFloat_isDouble: "isDouble (parseFloat str)"
  by (simp add: parseFloat_def Let_def round64_isDouble neg64_isDouble)
    (simp add: isDouble_def)

text \<open>The rounded multiple is a nearest one.\<close>

lemma roundHalfEven_nearest: "\<bar>x - of_int (roundHalfEven x)\<bar> \<le> 1 / 2"
  unfolding roundHalfEven_def tieToEven_def
  by (simp add: abs_le_iff)

section \<open>Evaluation of the rounding\<close>

lemma exponentSearch_numeral:
  "exponentSearch (numeral k) a lo hi =
     (if hi \<le> lo then lo
      else (let mid = (lo + hi + 1) div 2
            in if pow2 mid \<le> a then exponentSearch (pred_numeral k) a mid hi
               else exponentSearch (pred_numeral k) a lo (mid - 1)))"
  by (simp add: numeral_eq_Suc)

lemmas round_simps =
  round64_def roundAt_def withSign_def exponentOf_def exponentSearch_numeral
  roundHalfEven_def tieToEven_def pow2_def Let_def

lemmas parse_simps =
  parseTransform_def matrixBody_def lowerAscii_def isLineTerminator_def finiteFloats_def
  finiteNumber_def parseFloat_def js_def isWhiteSpace_def isDigit_def digitsValue_def
  digitValue_def exponentPart_def scale10_def round_simps

lemma round64_0: "round64 0 = Finite 0"
  by (simp add: round_simps)

text \<open>
  Examples: a tie goes to the even significand, the largest finite number is
  \<open>2\<^sup>1\<^sup>0\<^sup>2\<^sup>4 - 2\<^sup>9\<^sup>7\<^sup>1\<close>, and \<^verbatim>\<open>0.1 + 0.2\<close> is \<^verbatim>\<open>0.30000000000000004\<close>, not the
  number \<^verbatim>\<open>0.3\<close>.
\<close>

lemma round64_ties_to_even:
  "round64 (2 ^ 53 + 1) = Finite (2 ^ 53)"
  "round64 (2 ^ 53 + 3) = Finite (2 ^ 53 + 4)"
  "round64 (- (2 ^ 53 + 1)) = Finite (- (2 ^ 53))"
  by (simp_all add: round_simps)

lemma round64_overflow:
  "round64 (2 ^ 1024 - 2 ^ 971) = Finite (2 ^ 1024 - 2 ^ 971)"
  "round64 (2 ^ 1024 - 2 ^ 970) = Infinity"
  "round64 (- (2 ^ 1024)) = NegInfinity"
  by (simp_all add: round_simps)

lemma add64_tenths:
  "add64 (parseFloat (js ''0.1'')) (parseFloat (js ''0.2'')) =
     parseFloat (js ''0.30000000000000004'')"
  "parseFloat (js ''0.30000000000000004'') \<noteq> parseFloat (js ''0.3'')"
  by (simp_all add: parse_simps)

lemma add64_0: "isDouble x \<Longrightarrow> add64 x (Finite 0) = x"
  by (cases x) (simp_all add: isDouble_def)

lemma sub64_0: "isDouble x \<Longrightarrow> sub64 x (Finite 0) = x"
  by (cases x) (simp_all add: isDouble_def sub64_def)

section \<open>Properties of the transform parser\<close>

lemma fold_add64_foldl:
  "fold (\<lambda>record t. add64 t (f record)) stack a = foldl add64 a (map f stack)"
  by (induction stack arbitrary: a) simp_all

lemma updateTransform_sums:
  "cacheValid p \<Longrightarrow>
     tx (updateTransform p) = sumE (transformStack p) \<and>
     ty (updateTransform p) = sumF (transformStack p)"
  by (auto simp: cacheValid_def updateTransform_def sumE_def sumF_def fold_add64_foldl)

lemma updateTransform_stack: "transformStack (updateTransform p) = transformStack p"
  by (simp add: updateTransform_def)

lemma cacheValid_step:
  assumes "cacheValid p"
  shows "cacheValid (parserStep c p)"
proof (cases c)
  case (PushTransform str)
  then show ?thesis
    by (simp add: pushTransform_def cacheValid_def Let_def split: sum.splits)
next
  case PopTransform
  with assms show ?thesis
    by (auto simp: popTransform_def cacheValid_def)
next
  case (Transform x y)
  with updateTransform_sums [OF assms] show ?thesis
    by (simp add: transform_def Let_def cacheValid_def updateTransform_stack)
qed

lemma parserAfter_snoc: "parserAfter (calls @ [c]) = parserStep c (parserAfter calls)"
  by (simp add: parserAfter_def)

lemma cacheValid_parserAfter: "cacheValid (parserAfter calls)"
proof (induction calls rule: rev_induct)
  case Nil
  show ?case
    by (simp add: parserAfter_def createTransformParser_def cacheValid_def sumE_def sumF_def)
next
  case (snoc c calls)
  then show ?case
    by (simp add: parserAfter_snoc cacheValid_step)
qed

lemma transform_value:
  "fst (transform x y (parserAfter calls)) =
     (add64 x (sumE (transformStack (parserAfter calls))),
      sub64 y (sumF (transformStack (parserAfter calls))), Finite 0)"
  using updateTransform_sums [OF cacheValid_parserAfter, of calls]
  by (simp add: transform_def Let_def)

lemma parseTransform_length: "parseTransform str = Inr coefficients \<Longrightarrow> length coefficients = 6"
  by (auto simp: parseTransform_def Let_def split: option.splits if_splits)

lemma recordsComplete_step:
  assumes "recordsComplete p"
  shows "recordsComplete (parserStep c p)"
proof (cases c)
  case (PushTransform str)
  with assms show ?thesis
    by (cases "parseTransform str")
      (simp_all add: pushTransform_def recordsComplete_def Let_def parseTransform_length)
next
  case PopTransform
  from assms have "list_all (\<lambda>record. length record = 6) (butlast (transformStack p))"
    by (auto simp: recordsComplete_def list_all_iff dest: in_set_butlastD)
  with PopTransform assms show ?thesis
    by (simp add: popTransform_def recordsComplete_def)
next
  case (Transform x y)
  with assms show ?thesis
    by (simp add: transform_def Let_def recordsComplete_def updateTransform_stack)
qed

lemma recordsComplete_parserAfter: "recordsComplete (parserAfter calls)"
proof (induction calls rule: rev_induct)
  case Nil
  show ?case
    by (simp add: parserAfter_def createTransformParser_def recordsComplete_def)
next
  case (snoc c calls)
  then show ?case
    by (simp add: parserAfter_snoc recordsComplete_step)
qed

lemma parseTransform_example:
  "parseTransform (js ''matrix(1,0,0,1,10,20)'') =
     Inr [Finite 1, Finite 0, Finite 0, Finite 1, Finite 10, Finite 20]"
  by (simp add: parse_simps)

lemma parserAfter_push_example:
  "parserAfter [PushTransform (js ''matrix(1,0,0,1,10,20)'')] =
     \<lparr>isDirty = True, tx = Finite 0, ty = Finite 0,
      transformStack = [[Finite 1, Finite 0, Finite 0, Finite 1, Finite 10, Finite 20]]\<rparr>"
  by (simp add: parserAfter_def createTransformParser_def pushTransform_def
      parseTransform_example)

text \<open>
  C4. Whatever calls of \<^verbatim>\<open>pushTransform\<close>, \<^verbatim>\<open>popTransform\<close> and \<^verbatim>\<open>transform\<close>
  a parser has seen since it was created, \<^verbatim>\<open>transform(x, y)\<close> returns
  \<open>(x + \<Sigma>e, y - \<Sigma>f, 0)\<close>, the sums taken over the fifth and the sixth coefficient of
  the transforms now on the stack, from the first to the last, and \<open>+\<close> and \<open>-\<close> those
  of numbers: the cached offset is never used stale, and every record on the stack has
  its six coefficients. After pushing \<^verbatim>\<open>matrix(1,0,0,1,10,20)\<close> on a fresh parser,
  \<^verbatim>\<open>transform(0, 0)\<close> is \<open>(10, -20, 0)\<close>.
\<close>

theorem resolve_adds_translation_sums:
  "fst (transform x y (parserAfter calls)) =
     (add64 x (sumE (transformStack (parserAfter calls))),
      sub64 y (sumF (transformStack (parserAfter calls))), Finite 0)
   \<and> recordsComplete (parserAfter calls)
   \<and> transformStack (parserAfter [PushTransform (js ''matrix(1,0,0,1,10,20)'')])
       = [[Finite 1, Finite 0, Finite 0, Finite 1, Finite 10, Finite 20]]
   \<and> fst (transform (Finite 0) (Finite 0)
            (parserAfter [PushTransform (js ''matrix(1,0,0,1,10,20)'')])) =
       (Finite 10, Finite (- 20), Finite 0)"
proof -
  have "fst (transform (Finite 0) (Finite 0)
            (parserAfter [PushTransform (js ''matrix(1,0,0,1,10,20)'')])) =
       (Finite 10, Finite (- 20), Finite 0)"
    unfolding transform_value
    by (simp add: parserAfter_push_example sumE_def sumF_def sub64_def round_simps)
  then show ?thesis
    using recordsComplete_parserAfter [of calls]
    by (simp add: transform_value) (simp add: parserAfter_push_example)
qed

text \<open>
  C10. When the stack of a parser is empty, after whatever calls it has seen,
  \<^verbatim>\<open>transform(x, y)\<close> returns \<open>(x, y, 0)\<close>, for all values \<open>x\<close> and \<open>y\<close> of
  binary64, finite or not.
\<close>

theorem transform_identity_on_empty_stack:
  "transformStack (parserAfter calls) = [] \<Longrightarrow> isDouble x \<Longrightarrow> isDouble y \<Longrightarrow>
     fst (transform x y (parserAfter calls)) = (x, y, Finite 0)"
  by (simp add: transform_value sumE_def sumF_def add64_0 sub64_0)

theorem transform_identity_on_empty_stack_witness:
  "transformStack
     (parserAfter [PushTransform (js ''matrix(1,0,0,1,10,20)''),
                   Transform (Finite 1) (Finite 2), PopTransform]) = []
   \<and> isDouble (Finite 3) \<and> isDouble (Finite 4)
   \<and> fst (transform (Finite 3) (Finite 4)
        (parserAfter [PushTransform (js ''matrix(1,0,0,1,10,20)''),
                      Transform (Finite 1) (Finite 2), PopTransform]))
       = (Finite 3, Finite 4, Finite 0)"
proof -
  have e: "transformStack
     (parserAfter [PushTransform (js ''matrix(1,0,0,1,10,20)''),
                   Transform (Finite 1) (Finite 2), PopTransform]) = []"
    by (simp add: parserAfter_def createTransformParser_def pushTransform_def
        parseTransform_example transform_def updateTransform_def popTransform_def)
  have x: "isDouble (Finite 3)"
    by (simp add: isDouble_def round_simps)
  have y: "isDouble (Finite 4)"
    by (simp add: isDouble_def round_simps)
  from e x y transform_identity_on_empty_stack [OF e x y] show ?thesis
    by simp
qed

section \<open>Properties of the view box\<close>

lemma finiteNumber_iff: "finiteNumber x = (x \<notin> {NaN, Infinity, NegInfinity})"
  by (cases x) (simp_all add: finiteNumber_def)

lemma finiteFloats_filter:
  "finiteFloats toks = filter (\<lambda>x. x \<notin> {NaN, Infinity, NegInfinity}) (map parseFloat toks)"
  unfolding finiteFloats_def by (rule filter_cong) (simp_all add: finiteNumber_iff)

lemma finiteFloats_finite: "x \<in> set (finiteFloats toks) \<Longrightarrow> \<exists>r. x = Finite r"
  by (cases x) (auto simp: finiteFloats_def finiteNumber_def)

lemma four_numbers:
  "(case nums of
      [l, t, w, h] \<Rightarrow> f l t w h
    | _ \<Rightarrow> d) =
   (if length nums \<noteq> 4 then d else f (nums ! 0) (nums ! 1) (nums ! 2) (nums ! 3))"
  by (simp split: list.splits)

lemma parseViewBox_default:
  "parseViewBox None =
     Inr \<lparr>left = Finite 0, top_vb = Finite 0, width = Finite 1024, height = Finite 1024\<rparr>"
  by (simp add: parseViewBox_def orDefault_def parse_simps)

lemma parseViewBox_empty:
  "parseViewBox (Some []) =
     Inr \<lparr>left = Finite 0, top_vb = Finite 0, width = Finite 1024, height = Finite 1024\<rparr>"
  by (simp add: parseViewBox_def orDefault_def parse_simps)

lemma parseViewBox_four:
  "parseViewBox (Some (js ''0 0 1024 1024'')) =
     Inr \<lparr>left = Finite 0, top_vb = Finite 0, width = Finite 1024, height = Finite 1024\<rparr>"
  by (simp add: parseViewBox_def orDefault_def parse_simps)

lemma parseViewBox_three: "parseViewBox (Some (js ''0 0 1024'')) = Inl InvalidViewBox"
  by (simp add: parseViewBox_def orDefault_def parse_simps)

lemma parseViewBox_junk_token:
  "parseViewBox (Some (js ''0 0 junk 1024 1024'')) =
     Inr \<lparr>left = Finite 0, top_vb = Finite 0, width = Finite 1024, height = Finite 1024\<rparr>"
  by (simp add: parseViewBox_def orDefault_def parse_simps)

lemma parseViewBox_not_a_number:
  "parseViewBox (Some (js ''0 0 1024 abc'')) = Inl InvalidViewBox"
  by (simp add: parseViewBox_def orDefault_def parse_simps)

lemma parseViewBox_overflow:
  "parseViewBox (Some (js ''0 0 1 1e309'')) = Inl InvalidViewBox"
  by (simp add: parseViewBox_def orDefault_def parse_simps)

lemma parseViewBox_overflow_dropped:
  "parseViewBox (Some (js ''0 0 1e309 1 1'')) =
     Inr \<lparr>left = Finite 0, top_vb = Finite 0, width = Finite 1, height = Finite 1\<rparr>"
  by (simp add: parseViewBox_def orDefault_def parse_simps)

lemma handleElementStart_svg:
  "tagName el = js ''svg'' \<Longrightarrow>
     handleElementStart lib el st =
       (case parseViewBox (attributes el (js ''viewBox'')) of
          Inl e \<Rightarrow> (Some e, st)
        | Inr vb \<Rightarrow> (None, st\<lparr>viewBox := Some vb\<rparr>))"
  by (simp add: handleElementStart_def)

lemma svgWithViewBox_simps:
  "tagName (svgWithViewBox v) = js ''svg''"
  "attributes (svgWithViewBox v) (js ''viewBox'') = Some v"
  by (simp_all add: svgWithViewBox_def)

text \<open>
  C5, as the claim has it, fails: it is not the count of the tokens that decides. The
  attribute \<^verbatim>\<open>"0 0 junk 1024 1024"\<close> has five tokens and is accepted, with the view
  box \<open>(0, 0, 1024, 1024)\<close>; \<^verbatim>\<open>"0 0 1024 abc"\<close> has four tokens and throws
  \<open>InvalidViewBox\<close>.
\<close>

theorem viewBox_token_count_counterexample:
  "length (js_split 0x20 (js ''0 0 junk 1024 1024'')) = 5
   \<and> handleElementStart exampleParser (svgWithViewBox (js ''0 0 junk 1024 1024''))
         createStreamingSVGRenderer =
       (None, createStreamingSVGRenderer
                \<lparr>viewBox := Some \<lparr>left = Finite 0, top_vb = Finite 0,
                                   width = Finite 1024, height = Finite 1024\<rparr>\<rparr>)
   \<and> length (js_split 0x20 (js ''0 0 1024 abc'')) = 4
   \<and> handleElementStart exampleParser (svgWithViewBox (js ''0 0 1024 abc''))
         createStreamingSVGRenderer =
       (Some InvalidViewBox, createStreamingSVGRenderer)"
proof -
  have "length (js_split 0x20 (js ''0 0 junk 1024 1024'')) = 5"
    by (simp add: js_def)
  moreover have "length (js_split 0x20 (js ''0 0 1024 abc'')) = 4"
    by (simp add: js_def)
  ultimately show ?thesis
    by (simp add: handleElementStart_svg svgWithViewBox_simps parseViewBox_junk_token
        parseViewBox_not_a_number)
qed

text \<open>
  C5, amended. When an \<^verbatim>\<open>svg\<close> element starts, its \<^verbatim>\<open>viewBox\<close> attribute, or
  \<^verbatim>\<open>"0 0 1024 1024"\<close> when the attribute is absent or empty, is split at every
  space, each token is read with \<^verbatim>\<open>Number.parseFloat\<close>, and the results that are
  \<^verbatim>\<open>NaN\<close> or infinite are dropped. If exactly four numbers remain, they are stored
  as left, top, width, height, in order, and nothing else changes; otherwise the
  handler throws \<open>InvalidViewBox\<close> and the state is as before. So the handler throws
  exactly when the count of the tokens that read as a finite number is not 4. The
  absent attribute, the empty one and \<^verbatim>\<open>"0 0 1024 1024"\<close> give
  \<open>(0, 0, 1024, 1024)\<close>; \<^verbatim>\<open>"0 0 1024"\<close> fails; \<^verbatim>\<open>"0 0 1 1e309"\<close> fails, its
  last token being infinite; \<^verbatim>\<open>"0 0 1e309 1 1"\<close> gives \<open>(0, 0, 1, 1)\<close>.
\<close>

theorem svg_start_parses_viewBox:
  assumes "tagName el = js ''svg''"
  shows "handleElementStart lib el st =
           (case filter (\<lambda>x. x \<notin> {NaN, Infinity, NegInfinity})
                   (map parseFloat
                      (js_split 0x20
                         (orDefault (attributes el (js ''viewBox'')) (js ''0 0 1024 1024'')))) of
              [l, t, w, h] \<Rightarrow>
                (None, st\<lparr>viewBox := Some \<lparr>left = l, top_vb = t, width = w, height = h\<rparr>\<rparr>)
            | _ \<Rightarrow> (Some InvalidViewBox, st))
         \<and> (handleElementStart lib el st = (Some InvalidViewBox, st)) =
             (length (filter (\<lambda>token. parseFloat token \<notin> {NaN, Infinity, NegInfinity})
                        (js_split 0x20
                           (orDefault (attributes el (js ''viewBox'')) (js ''0 0 1024 1024''))))
              \<noteq> 4)
         \<and> parseViewBox None =
             Inr \<lparr>left = Finite 0, top_vb = Finite 0, width = Finite 1024, height = Finite 1024\<rparr>
         \<and> parseViewBox (Some []) =
             Inr \<lparr>left = Finite 0, top_vb = Finite 0, width = Finite 1024, height = Finite 1024\<rparr>
         \<and> parseViewBox (Some (js ''0 0 1024 1024'')) =
             Inr \<lparr>left = Finite 0, top_vb = Finite 0, width = Finite 1024, height = Finite 1024\<rparr>
         \<and> parseViewBox (Some (js ''0 0 1024'')) = Inl InvalidViewBox
         \<and> parseViewBox (Some (js ''0 0 1 1e309'')) = Inl InvalidViewBox
         \<and> parseViewBox (Some (js ''0 0 1e309 1 1'')) =
             Inr \<lparr>left = Finite 0, top_vb = Finite 0, width = Finite 1, height = Finite 1\<rparr>"
proof -
  let ?tokens = "js_split 0x20 (orDefault (attributes el (js ''viewBox'')) (js ''0 0 1024 1024''))"
  let ?nums = "filter (\<lambda>x. x \<notin> {NaN, Infinity, NegInfinity}) (map parseFloat ?tokens)"
  have main: "handleElementStart lib el st =
           (if length ?nums \<noteq> 4 then (Some InvalidViewBox, st)
            else (None, st\<lparr>viewBox := Some \<lparr>left = ?nums ! 0, top_vb = ?nums ! 1,
                                             width = ?nums ! 2, height = ?nums ! 3\<rparr>\<rparr>))"
    unfolding handleElementStart_svg [OF assms] parseViewBox_def finiteFloats_filter
    by (simp add: Let_def)
  have count: "length ?nums =
      length (filter (\<lambda>token. parseFloat token \<notin> {NaN, Infinity, NegInfinity}) ?tokens)"
    by (simp add: filter_map o_def)
  have 1: "handleElementStart lib el st =
           (case ?nums of
              [l, t, w, h] \<Rightarrow>
                (None, st\<lparr>viewBox := Some \<lparr>left = l, top_vb = t, width = w, height = h\<rparr>\<rparr>)
            | _ \<Rightarrow> (Some InvalidViewBox, st))"
    unfolding four_numbers by (rule main)
  have 2: "(handleElementStart lib el st = (Some InvalidViewBox, st)) =
             (length (filter (\<lambda>token. parseFloat token \<notin> {NaN, Infinity, NegInfinity})
                        ?tokens) \<noteq> 4)"
    unfolding main count [symmetric] by simp
  from 1 2 show ?thesis
    using parseViewBox_default parseViewBox_empty parseViewBox_four parseViewBox_three
      parseViewBox_overflow parseViewBox_overflow_dropped
    by blast
qed

theorem svg_start_parses_viewBox_witness:
  "tagName svgElement = js ''svg''
   \<and> handleElementStart exampleParser svgElement createStreamingSVGRenderer =
       (None, createStreamingSVGRenderer
                \<lparr>viewBox := Some \<lparr>left = Finite 0, top_vb = Finite 0,
                                   width = Finite 1024, height = Finite 1024\<rparr>\<rparr>)"
proof -
  have t: "tagName svgElement = js ''svg''"
    by (simp add: svgElement_def)
  have n: "filter (\<lambda>x. x \<notin> {NaN, Infinity, NegInfinity})
             (map parseFloat (js_split 0x20 (js ''0 0 1024 1024''))) =
           [Finite 0, Finite 0, Finite 1024, Finite 1024]"
    by (simp add: parse_simps)
  have a: "orDefault (attributes svgElement (js ''viewBox'')) (js ''0 0 1024 1024'') =
           js ''0 0 1024 1024''"
    by (simp add: svgElement_def orDefault_def js_def)
  from svg_start_parses_viewBox [OF t, of exampleParser createStreamingSVGRenderer]
  have "handleElementStart exampleParser svgElement createStreamingSVGRenderer =
       (None, createStreamingSVGRenderer
                \<lparr>viewBox := Some \<lparr>left = Finite 0, top_vb = Finite 0,
                                   width = Finite 1024, height = Finite 1024\<rparr>\<rparr>)"
    unfolding a n by simp
  with t show ?thesis by blast
qed

text \<open>
  C8, as the claim has it, fails: the flip is no involution on numbers. With the view
  box of top 0 and height 1, \<^verbatim>\<open>transformY(0.1)\<close> is \<open>0.9\<close>, rounded up, and
  \<^verbatim>\<open>transformY\<close> of that is \<open>0.09999999999999998\<close>, which is not the number
  \<open>0.1\<close>.
\<close>

theorem transformY_twice_counterexample:
  "parseFloat (js ''0.1'') = Finite (3602879701896397 / 2 ^ 55)
   \<and> transformY (Some unitViewBox) (Finite (3602879701896397 / 2 ^ 55)) =
       Inr (Finite (8106479329266893 / 2 ^ 53))
   \<and> transformY (Some unitViewBox) (Finite (8106479329266893 / 2 ^ 53)) =
       Inr (Finite (900719925474099 / 2 ^ 53))
   \<and> Finite (900719925474099 / 2 ^ 53) \<noteq> parseFloat (js ''0.1'')"
proof -
  have p: "parseFloat (js ''0.1'') = Finite (3602879701896397 / 2 ^ 55)"
    by (simp add: parse_simps)
  have a: "transformY (Some unitViewBox) (Finite (3602879701896397 / 2 ^ 55)) =
       Inr (Finite (8106479329266893 / 2 ^ 53))"
    by (simp add: transformY_def unitViewBox_def sub64_def round_simps)
  have b: "transformY (Some unitViewBox) (Finite (8106479329266893 / 2 ^ 53)) =
       Inr (Finite (900719925474099 / 2 ^ 53))"
    by (simp add: transformY_def unitViewBox_def sub64_def round_simps)
  have "Finite (900719925474099 / 2 ^ 53) \<noteq> Finite (3602879701896397 / 2 ^ 55)"
    by simp
  with p a b show ?thesis
    by simp
qed

text \<open>
  C8, amended. With the view box set, \<^verbatim>\<open>transformY(y)\<close> is
  \<open>(height + top) - y\<close> on numbers, the sum and the difference each rounded; for a
  view box with top 0 and height 1000 it takes 0 to 1000 and 1000 to 0. Applying it
  twice gives \<open>y\<close> back when neither the sum \<open>height + top\<close> nor the difference
  \<open>height + top - y\<close> is rounded.
\<close>

theorem transformY_flip:
  "transformY (Some vb) y = Inr (sub64 (add64 (height vb) (top_vb vb)) y)
   \<and> transformY (Some \<lparr>left = l, top_vb = Finite 0, width = w, height = Finite 1000\<rparr>)
         (Finite 0) = Inr (Finite 1000)
   \<and> transformY (Some \<lparr>left = l, top_vb = Finite 0, width = w, height = Finite 1000\<rparr>)
         (Finite 1000) = Inr (Finite 0)
   \<and> (height vb = Finite h \<and> top_vb vb = Finite t
        \<and> round64 (h + t) = Finite (h + t) \<and> round64 (h + t - r) = Finite (h + t - r)
        \<and> round64 r = Finite r
      \<longrightarrow> transformY (Some vb) (Finite r) = Inr (Finite (h + t - r))
          \<and> transformY (Some vb) (Finite (h + t - r)) = Inr (Finite r))"
proof -
  have "transformY (Some \<lparr>left = l, top_vb = Finite 0, width = w, height = Finite 1000\<rparr>)
         (Finite 0) = Inr (Finite 1000)"
    by (simp add: transformY_def sub64_def round_simps)
  moreover
  have "transformY (Some \<lparr>left = l, top_vb = Finite 0, width = w, height = Finite 1000\<rparr>)
         (Finite 1000) = Inr (Finite 0)"
    by (simp add: transformY_def sub64_def round_simps)
  moreover
  have "transformY (Some vb) (Finite r) = Inr (Finite (h + t - r))
          \<and> transformY (Some vb) (Finite (h + t - r)) = Inr (Finite r)"
    if "height vb = Finite h" "top_vb vb = Finite t" "round64 (h + t) = Finite (h + t)"
      "round64 (h + t - r) = Finite (h + t - r)" "round64 r = Finite r"
    using that by (simp add: transformY_def sub64_def)
  ultimately show ?thesis
    by (simp add: transformY_def)
qed

theorem transformY_flip_witness:
  "height \<lparr>left = Finite 0, top_vb = Finite 24, width = Finite 1000, height = Finite 1000\<rparr>
     = Finite 1000
   \<and> top_vb \<lparr>left = Finite 0, top_vb = Finite 24, width = Finite 1000, height = Finite 1000\<rparr>
     = Finite 24
   \<and> round64 (1000 + 24) = Finite (1000 + 24)
   \<and> round64 (1000 + 24 - 1 / 4) = Finite (1000 + 24 - 1 / 4)
   \<and> round64 (1 / 4) = Finite (1 / 4)
   \<and> transformY
        (Some \<lparr>left = Finite 0, top_vb = Finite 24, width = Finite 1000, height = Finite 1000\<rparr>)
        (Finite (1 / 4)) = Inr (Finite (1000 + 24 - 1 / 4))
   \<and> transformY
        (Some \<lparr>left = Finite 0, top_vb = Finite 24, width = Finite 1000, height = Finite 1000\<rparr>)
        (Finite (1000 + 24 - 1 / 4)) = Inr (Finite (1 / 4))"
proof -
  have a: "round64 (1000 + 24) = Finite (1000 + 24)"
    by (simp add: round_simps)
  have b: "round64 (1000 + 24 - 1 / 4) = Finite (1000 + 24 - 1 / 4)"
    by (simp add: round_simps)
  have c: "round64 (1 / 4) = Finite (1 / 4)"
    by (simp add: round_simps)
  from a b c
    transformY_flip [of "\<lparr>left = Finite 0, top_vb = Finite 24, width = Finite 1000,
      height = Finite 1000\<rparr>" "Finite 0" "Finite 0" "Finite 0" 1000 24 "1 / 4"]
  show ?thesis
    by simp
qed

section \<open>Properties of the complementary colour\<close>










section \<open>Properties of ingestion\<close>

lemma nodesIndexed_cong:
  "positions st' = positions st \<Longrightarrow> nodeNameToUI st' = nodeNameToUI st \<Longrightarrow>
   nodesByComponent st' = nodesByComponent st \<Longrightarrow> nodesIndexed st' = nodesIndexed st"
  by (simp add: nodesIndexed_def)

lemma addNode_failure: "addNode el st = (Some e, st') \<Longrightarrow> st' = st"
  by (auto simp: addNode_def Let_def split: sum.splits option.splits prod.splits if_splits)

lemma nodesIndexed_extend:
  assumes inv: "nodesIndexed st"
    and nm: "name ui = nm" and cid: "componentId ui = cid"
    and fresh: "nodeNameToUI st nm = None"
    and ns: "set ns = insert nm
                (case nodesByComponent st cid of None \<Rightarrow> {} | Some ms \<Rightarrow> set ms)"
  shows "nodesIndexed (st\<lparr>nodesByComponent := (nodesByComponent st)(cid \<mapsto> ns),
                       currentTransform := p,
                       nodeNameToUI := (nodeNameToUI st)(nm \<mapsto> ui),
                       positions := positions st @ [ui]\<rparr>)"
proof -
  from inv have d: "distinct (map name (positions st))"
    and m: "\<And>n u. (nodeNameToUI st n = Some u) = (u \<in> set (positions st) \<and> name u = n)"
    and c: "\<And>u. u \<in> set (positions st) \<Longrightarrow>
              \<exists>ms. nodesByComponent st (componentId u) = Some ms \<and> name u \<in> set ms"
    and k: "\<And>c ms n. nodesByComponent st c = Some ms \<Longrightarrow> n \<in> set ms
              \<Longrightarrow> nodeNameToUI st n \<noteq> None"
    by (auto simp: nodesIndexed_def)
  have new: "name u \<noteq> nm" if "u \<in> set (positions st)" for u
  proof
    assume "name u = nm"
    with that m [of nm u] fresh show False by simp
  qed
  have 1: "distinct (map name (positions st @ [ui]))"
    using d nm by (auto dest: new)
  have 2: "((nodeNameToUI st)(nm \<mapsto> ui)) n = Some u
             \<longleftrightarrow> (u \<in> set (positions st @ [ui]) \<and> name u = n)" for n u
  proof (cases "n = nm")
    case True
    with nm show ?thesis by (auto dest: new)
  next
    case False
    with m [of n u] nm show ?thesis by auto
  qed
  have 3: "\<exists>ms. ((nodesByComponent st)(cid \<mapsto> ns)) (componentId u) = Some ms
             \<and> name u \<in> set ms" if "u \<in> set (positions st @ [ui])" for u
  proof (cases "u = ui")
    case True
    with ns nm cid show ?thesis by simp
  next
    case False
    with that have "u \<in> set (positions st)" by simp
    from c [OF this] obtain ms where
      ms: "nodesByComponent st (componentId u) = Some ms" "name u \<in> set ms" by blast
    show ?thesis
    proof (cases "componentId u = cid")
      case True
      with ms ns show ?thesis by auto
    next
      case False
      with ms show ?thesis by simp
    qed
  qed
  have 4: "((nodeNameToUI st)(nm \<mapsto> ui)) n \<noteq> None"
    if "((nodesByComponent st)(cid \<mapsto> ns)) c' = Some ms" "n \<in> set ms" for c' ms n
  proof (cases "n = nm")
    case True
    then show ?thesis by simp
  next
    case False
    show ?thesis
    proof (cases "c' = cid")
      case True
      with that ns False have "n \<in> (case nodesByComponent st cid of
                                      None \<Rightarrow> {} | Some ms \<Rightarrow> set ms)"
        by auto
      then obtain ms' where "nodesByComponent st cid = Some ms'" "n \<in> set ms'"
        by (auto split: option.splits)
      from k [OF this] False show ?thesis by simp
    next
      case c': False
      with that have "nodesByComponent st c' = Some ms" by simp
      from k [OF this that(2)] False show ?thesis by simp
    qed
  qed
  show ?thesis
    unfolding nodesIndexed_def
    using 1 2 3 4 by simp
qed

lemma setAdd_set: "set (setAdd x xs) = insert x (set xs)"
  by (auto simp: setAdd_def)

lemma nodesIndexed_addNode:
  assumes "nodesIndexed st"
  shows "nodesIndexed (snd (addNode el st))"
  unfolding addNode_def Let_def
  using assms
  by (auto split: sum.splits option.splits prod.splits
      intro!: nodesIndexed_extend simp: setAdd_set)

lemma parseBorder_frame:
  "positions (snd (parseBorder lib el st)) = positions st
   \<and> nodeNameToUI (snd (parseBorder lib el st)) = nodeNameToUI st
   \<and> nodesByComponent (snd (parseBorder lib el st)) = nodesByComponent st
   \<and> viewBox (snd (parseBorder lib el st)) = viewBox st"
proof (cases "transformPoints (viewBox st)
             (getPointsFromPathData lib (attributes el (js ''d''))) (currentTransform st)")
  case (Pair r p)
  then show ?thesis
    by (cases r) (simp_all add: parseBorder_def)
qed
lemma addBorder_frame:
  "positions (snd (addBorder lib el st)) = positions st
   \<and> nodeNameToUI (snd (addBorder lib el st)) = nodeNameToUI st
   \<and> nodesByComponent (snd (addBorder lib el st)) = nodesByComponent st
   \<and> viewBox (snd (addBorder lib el st)) = viewBox st"
proof (cases "parseBorder lib el st")
  case (Pair r st1)
  with parseBorder_frame [of lib el st] have
    f: "positions st1 = positions st" "nodeNameToUI st1 = nodeNameToUI st"
       "nodesByComponent st1 = nodesByComponent st" "viewBox st1 = viewBox st"
    by simp_all
  show ?thesis
  proof (cases r)
    case (Inl e)
    with Pair f show ?thesis by (simp add: addBorder_def)
  next
    case (Inr pc)
    with Pair f show ?thesis
      by (cases pc) (simp add: addBorder_def Let_def split: option.splits)
  qed
qed
lemma handleElementEnd_frame:
  "positions (snd (handleElementEnd el st)) = positions st
   \<and> nodeNameToUI (snd (handleElementEnd el st)) = nodeNameToUI st
   \<and> nodesByComponent (snd (handleElementEnd el st)) = nodesByComponent st
   \<and> viewBox (snd (handleElementEnd el st)) = viewBox st"
proof (cases "popTransform (currentTransform st)")
  case (Pair e p)
  then show ?thesis
    by (simp add: handleElementEnd_def Let_def)
qed

lemma nodesIndexed_viewBox_update: "nodesIndexed (st\<lparr>viewBox := vb\<rparr>) = nodesIndexed st"
  by (rule nodesIndexed_cong) simp_all

lemma nodesIndexed_currentTransform_update:
  "nodesIndexed (st\<lparr>currentTransform := p\<rparr>) = nodesIndexed st"
  by (rule nodesIndexed_cong) simp_all

lemma nodesIndexed_handleElementStart:
  assumes "nodesIndexed st"
  shows "nodesIndexed (snd (handleElementStart lib el st))"
proof -
  consider (svg) "tagName el = js ''svg''"
    | (path) "tagName el \<noteq> js ''svg''" "tagName el = js ''path''"
    | (circle) "tagName el \<noteq> js ''svg''" "tagName el \<noteq> js ''path''" "tagName el = js ''circle''"
    | (other) "tagName el \<noteq> js ''svg''" "tagName el \<noteq> js ''path''" "tagName el \<noteq> js ''circle''"
    by blast
  then show ?thesis
  proof cases
    case svg
    with assms show ?thesis
      by (cases "parseViewBox (attributes el (js ''viewBox''))")
        (simp_all add: handleElementStart_def nodesIndexed_viewBox_update)
  next
    case path
    have "nodesIndexed (snd (addBorder lib el st)) = nodesIndexed st"
      by (rule nodesIndexed_cong) (simp_all add: addBorder_frame)
    with path assms show ?thesis
      by (simp add: handleElementStart_def)
  next
    case circle
    with nodesIndexed_addNode [OF assms, of el] show ?thesis
      by (simp add: handleElementStart_def)
  next
    case other
    with assms show ?thesis
      by (cases "pushTransform (orDefault (attributes el (js ''transform'')) [])
                   (currentTransform st)")
        (simp add: handleElementStart_def Let_def nodesIndexed_currentTransform_update)
  qed
qed

lemma nodesIndexed_handleEvent:
  assumes "nodesIndexed st"
  shows "nodesIndexed (snd (handleEvent lib ev st))"
proof (cases ev)
  case (ElementStart el)
  with nodesIndexed_handleElementStart [OF assms] show ?thesis by simp
next
  case (ElementEnd el)
  have "nodesIndexed (snd (handleElementEnd el st)) = nodesIndexed st"
    by (rule nodesIndexed_cong) (simp_all add: handleElementEnd_frame)
  with ElementEnd assms show ?thesis by simp
qed

lemma rendererAfter_snoc:
  "rendererAfter lib (events @ [ev]) = snd (handleEvent lib ev (rendererAfter lib events))"
  by (simp add: rendererAfter_def)

lemma nodesIndexed_rendererAfter: "nodesIndexed (rendererAfter lib events)"
proof (induction events rule: rev_induct)
  case Nil
  show ?case
    by (simp add: rendererAfter_def createStreamingSVGRenderer_def nodesIndexed_def)
next
  case (snoc ev events)
  then show ?case
    by (simp add: rendererAfter_snoc nodesIndexed_handleEvent)
qed

lemmas ingest_simps =
  rendererAfter_def handleElementStart_def handleElementEnd_def addNode_def nodeNameOf_def
  getNumericAttribute_def getTextAttribute_def orDefault_def transformY_def transform_def
  updateTransform_def parseViewBox_def setAdd_def createStreamingSVGRenderer_def
  createTransformParser_def svgElement_def circleElement_def sub64_def mul64_def Let_def

lemma twoNodeDocument_state:
  "rendererAfter exampleParser twoNodeDocument =
     \<lparr>viewBox = Some \<lparr>left = Finite 0, top_vb = Finite 0,
                       width = Finite 1024, height = Finite 1024\<rparr>,
      currentTransform = createTransformParser,
      positions = [nodeA, nodeB],
      nodeNameToUI = [js ''a'' \<mapsto> nodeA, js ''b'' \<mapsto> nodeB],
      nodesByComponent = [js ''c1'' \<mapsto> [js ''a'', js ''b'']],
      complimentaryColor = Map.empty, clusterColors = Map.empty, boundariesFill = []\<rparr>"
  by (simp add: twoNodeDocument_def nodeA_def nodeB_def ingest_simps parse_simps)

lemma addNode_duplicate:
  assumes "nodeNameToUI st (nodeNameOf el) \<noteq> None"
  shows "\<exists>e. addNode el st = (Some e, st)"
  using assms
  by (simp add: addNode_def Let_def split: sum.splits)

lemma getNumericAttribute_finite:
  "getNumericAttribute el a \<noteq> Inl InvalidNumericAttribute \<Longrightarrow>
     \<exists>v. getNumericAttribute el a = Inr v"
  by (cases "getNumericAttribute el a")
    (auto simp: getNumericAttribute_def Let_def split: if_splits)

lemma addNode_duplicate_error:
  assumes dup: "nodeNameToUI st (nodeNameOf el) \<noteq> None" and vb: "viewBox st \<noteq> None"
    and cx: "getNumericAttribute el (js ''cx'') \<noteq> Inl InvalidNumericAttribute"
    and cy: "getNumericAttribute el (js ''cy'') \<noteq> Inl InvalidNumericAttribute"
    and r: "getNumericAttribute el (js ''r'') \<noteq> Inl InvalidNumericAttribute"
  shows "addNode el st = (Some DuplicateNodeName, st)"
proof -
  from getNumericAttribute_finite [OF cx] obtain x where
    x: "getNumericAttribute el (js ''cx'') = Inr x" ..
  from getNumericAttribute_finite [OF cy] obtain y where
    y: "getNumericAttribute el (js ''cy'') = Inr y" ..
  from getNumericAttribute_finite [OF r] obtain r' where
    r': "getNumericAttribute el (js ''r'') = Inr r'" ..
  from vb obtain v where v: "viewBox st = Some v" by auto
  show ?thesis
    unfolding addNode_def x y r' v transformY_def
    using dup by (simp add: Let_def)
qed
lemma addNode_appends:
  "addNode el st = (None, st') \<Longrightarrow>
     \<exists>ui. positions st' = positions st @ [ui] \<and> name ui = nodeNameOf el"
  by (auto simp: addNode_def Let_def split: sum.splits option.splits prod.splits if_splits)

text \<open>
  C6. In the state after any sequence of element events the names of the node records
  in \<open>positions\<close> are pairwise different, and the names \<open>nodeNameToUI\<close> knows are
  exactly these. A record that \<^verbatim>\<open>addNode\<close> stores is appended and has the name
  \<open>nodeNameOf el\<close>: the \<^verbatim>\<open>id\<close> attribute without one leading underscore. A
  \<^verbatim>\<open>circle\<close> whose name is already registered makes the handler throw and leaves the
  state as it was; the error is \<open>DuplicateNodeName\<close> when the view box is set and
  \<^verbatim>\<open>cx\<close>, \<^verbatim>\<open>cy\<close> and \<^verbatim>\<open>r\<close> are finite (these are read before the name).
\<close>

theorem node_names_unique:
  "distinct (map name (positions (rendererAfter lib events)))
   \<and> ((nodeNameToUI (rendererAfter lib events) n \<noteq> None)
        = (n \<in> name ` set (positions (rendererAfter lib events))))
   \<and> (tagName el = js ''circle'' \<longrightarrow> handleElementStart lib el st = (None, st') \<longrightarrow>
        (\<exists>ui. positions st' = positions st @ [ui] \<and> name ui = nodeNameOf el))
   \<and> (tagName el = js ''circle'' \<longrightarrow> nodeNameToUI st (nodeNameOf el) \<noteq> None \<longrightarrow>
        (\<exists>e. handleElementStart lib el st = (Some e, st))
        \<and> (viewBox st \<noteq> None \<longrightarrow>
             getNumericAttribute el (js ''cx'') \<noteq> Inl InvalidNumericAttribute \<longrightarrow>
             getNumericAttribute el (js ''cy'') \<noteq> Inl InvalidNumericAttribute \<longrightarrow>
             getNumericAttribute el (js ''r'') \<noteq> Inl InvalidNumericAttribute \<longrightarrow>
               handleElementStart lib el st = (Some DuplicateNodeName, st)))"
proof -
  let ?st = "rendererAfter lib events"
  have inv: "nodesIndexed ?st"
    by (rule nodesIndexed_rendererAfter)
  then have 1: "distinct (map name (positions ?st))"
    by (simp add: nodesIndexed_def)
  from inv have m: "(nodeNameToUI ?st n = Some u) = (u \<in> set (positions ?st) \<and> name u = n)"
    for u
    by (simp add: nodesIndexed_def)
  have 2: "(nodeNameToUI ?st n \<noteq> None) = (n \<in> name ` set (positions ?st))"
  proof
    assume "nodeNameToUI ?st n \<noteq> None"
    then obtain u where "nodeNameToUI ?st n = Some u" by auto
    with m [of u] have "u \<in> set (positions ?st)" "name u = n" by simp_all
    then show "n \<in> name ` set (positions ?st)" by auto
  next
    assume "n \<in> name ` set (positions ?st)"
    then obtain u where "u \<in> set (positions ?st)" "name u = n" by auto
    with m [of u] show "nodeNameToUI ?st n \<noteq> None" by simp
  qed
  have c: "handleElementStart lib el st = addNode el st" if "tagName el = js ''circle''"
    using that by (simp add: handleElementStart_def)
  have 3: "tagName el = js ''circle'' \<longrightarrow> handleElementStart lib el st = (None, st') \<longrightarrow>
        (\<exists>ui. positions st' = positions st @ [ui] \<and> name ui = nodeNameOf el)"
    using c addNode_appends [of el st st'] by simp
  have 4: "tagName el = js ''circle'' \<longrightarrow> nodeNameToUI st (nodeNameOf el) \<noteq> None \<longrightarrow>
        (\<exists>e. handleElementStart lib el st = (Some e, st))
        \<and> (viewBox st \<noteq> None \<longrightarrow>
             getNumericAttribute el (js ''cx'') \<noteq> Inl InvalidNumericAttribute \<longrightarrow>
             getNumericAttribute el (js ''cy'') \<noteq> Inl InvalidNumericAttribute \<longrightarrow>
             getNumericAttribute el (js ''r'') \<noteq> Inl InvalidNumericAttribute \<longrightarrow>
               handleElementStart lib el st = (Some DuplicateNodeName, st))"
    using c addNode_duplicate [of st el] addNode_duplicate_error [of st el] by simp
  from 1 2 3 4 show ?thesis by blast
qed

theorem node_names_unique_witness:
  "distinct (map name (positions (rendererAfter exampleParser twoNodeDocument)))
   \<and> nodeNameToUI (rendererAfter exampleParser twoNodeDocument) (js ''a'') \<noteq> None
   \<and> js ''a'' \<in> name ` set (positions (rendererAfter exampleParser twoNodeDocument))
   \<and> tagName (circleElement (js ''_c'') (js ''3'') (js ''c1'')) = js ''circle''
   \<and> fst (handleElementStart exampleParser (circleElement (js ''_c'') (js ''3'') (js ''c1''))
          (rendererAfter exampleParser twoNodeDocument)) = None
   \<and> (\<exists>ui. positions (snd (handleElementStart exampleParser (circleElement (js ''_c'') (js ''3'') (js ''c1''))
                  (rendererAfter exampleParser twoNodeDocument)))
              = positions (rendererAfter exampleParser twoNodeDocument) @ [ui]
           \<and> name ui = js ''c'')
   \<and> tagName (circleElement (js ''a'') (js ''5'') (js ''c2'')) = js ''circle''
   \<and> nodeNameOf (circleElement (js ''a'') (js ''5'') (js ''c2'')) = js ''a''
   \<and> viewBox (rendererAfter exampleParser twoNodeDocument) \<noteq> None
   \<and> getNumericAttribute (circleElement (js ''a'') (js ''5'') (js ''c2'')) (js ''cx'') \<noteq> Inl InvalidNumericAttribute
   \<and> getNumericAttribute (circleElement (js ''a'') (js ''5'') (js ''c2'')) (js ''cy'') \<noteq> Inl InvalidNumericAttribute
   \<and> getNumericAttribute (circleElement (js ''a'') (js ''5'') (js ''c2'')) (js ''r'') \<noteq> Inl InvalidNumericAttribute
   \<and> handleElementStart exampleParser (circleElement (js ''a'') (js ''5'') (js ''c2''))
         (rendererAfter exampleParser twoNodeDocument)
       = (Some DuplicateNodeName, rendererAfter exampleParser twoNodeDocument)"
proof -
  let ?st = "rendererAfter exampleParser twoNodeDocument"
  let ?dup = "circleElement (js ''a'') (js ''5'') (js ''c2'')"
  let ?new = "circleElement (js ''_c'') (js ''3'') (js ''c1'')"
  have t: "tagName ?dup = js ''circle''" "tagName ?new = js ''circle''"
    by (simp_all add: circleElement_def)
  have nm: "nodeNameOf ?dup = js ''a''" "nodeNameOf ?new = js ''c''"
    by (simp_all add: circleElement_def nodeNameOf_def getTextAttribute_def orDefault_def)
  have reg: "nodeNameToUI ?st (js ''a'') \<noteq> None" "viewBox ?st \<noteq> None"
    by (simp_all add: twoNodeDocument_state)
  have num: "getNumericAttribute ?dup (js ''cx'') \<noteq> Inl InvalidNumericAttribute"
    "getNumericAttribute ?dup (js ''cy'') \<noteq> Inl InvalidNumericAttribute"
    "getNumericAttribute ?dup (js ''r'') \<noteq> Inl InvalidNumericAttribute"
    by (simp_all add: circleElement_def getNumericAttribute_def parse_simps)
  have ok: "fst (handleElementStart exampleParser ?new ?st) = None"
    unfolding twoNodeDocument_state
    by (simp add: ingest_simps parse_simps)
  then have ok': "handleElementStart exampleParser ?new ?st
                   = (None, snd (handleElementStart exampleParser ?new ?st))"
    by (metis prod.collapse)
  note dup = node_names_unique [of exampleParser twoNodeDocument "js ''a''" ?dup ?st ?st]
  note new = node_names_unique [of exampleParser twoNodeDocument "js ''a''" ?new ?st
      "snd (handleElementStart exampleParser ?new ?st)"]
  from dup t nm reg num have
    "handleElementStart exampleParser ?dup ?st = (Some DuplicateNodeName, ?st)"
    by simp
  moreover from new t(2) ok' nm(2) have
    "\<exists>ui. positions (snd (handleElementStart exampleParser ?new ?st)) = positions ?st @ [ui]
           \<and> name ui = js ''c''"
    by simp
  moreover from dup reg have "distinct (map name (positions ?st))"
    "js ''a'' \<in> name ` set (positions ?st)"
    by blast+
  ultimately show ?thesis
    using t nm reg num ok by blast
qed

section \<open>Properties of the highlights\<close>

lemma highlightLinked_Some:
  "highlightLinked C st (Some ns) visits nodeUIs =
     Inr (nodeUIs @ map (\<lambda>(other, link).
            highlightCopy (nodeNameToUI st other) (SECONDARY_HIGHLIGHT_COLOR C)) visits)"
  by (induction visits arbitrary: nodeUIs) auto

lemma highlightLinked_None:
  "highlightLinked C st None visits nodeUIs =
     (if visits = [] then Inr nodeUIs else Inl TypeError)"
  by (cases visits) auto

text \<open>
  C7. For a node record \<open>ui\<close> of the ingested document and a loaded graph,
  \<^verbatim>\<open>getHighlightedNodes(ui)\<close> returns the copy of \<open>ui\<close> with the primary colour,
  followed, for every visit of \<^verbatim>\<open>forEachLinkedNode(ui.name)\<close> in order, by the copy
  of the visited node's record with the secondary colour. Membership in the
  component's set filters nothing. Without links the result is the focused node
  alone.
\<close>

theorem highlighted_nodes_sequence:
  assumes "ui \<in> set (positions (rendererAfter lib events))"
  shows "getHighlightedNodes C (Some g) (rendererAfter lib events) ui =
           Inr (Copy (ui\<lparr>color := PRIMARY_HIGHLIGHT_COLOR C\<rparr>) #
                map (\<lambda>(other, link).
                       highlightCopy (nodeNameToUI (rendererAfter lib events) other)
                         (SECONDARY_HIGHLIGHT_COLOR C))
                  (forEachLinkedNode g (name ui)))
         \<and> (forEachLinkedNode g (name ui) = [] \<longrightarrow>
              getHighlightedNodes C (Some g) (rendererAfter lib events) ui =
                Inr [Copy (ui\<lparr>color := PRIMARY_HIGHLIGHT_COLOR C\<rparr>)])"
proof -
  let ?st = "rendererAfter lib events"
  have inv: "nodesIndexed ?st"
    by (rule nodesIndexed_rendererAfter)
  with assms have "nodeNameToUI ?st (name ui) = Some ui"
    by (simp add: nodesIndexed_def)
  moreover from inv assms obtain ns where "nodesByComponent ?st (componentId ui) = Some ns"
    by (auto simp: nodesIndexed_def)
  ultimately have "getHighlightedNodes C (Some g) ?st ui =
           Inr (Copy (ui\<lparr>color := PRIMARY_HIGHLIGHT_COLOR C\<rparr>) #
                map (\<lambda>(other, link).
                       highlightCopy (nodeNameToUI ?st other) (SECONDARY_HIGHLIGHT_COLOR C))
                  (forEachLinkedNode g (name ui)))"
    by (simp add: getHighlightedNodes_def highlightLinked_Some highlightCopy_def)
  then show ?thesis by simp
qed

theorem highlighted_nodes_sequence_witness:
  "nodeA \<in> set (positions (rendererAfter exampleParser twoNodeDocument))
   \<and> getHighlightedNodes exampleColors
        (Some [\<lparr>fromId = js ''b'', toId = js ''a''\<rparr>, \<lparr>fromId = js ''a'', toId = js ''x''\<rparr>])
        (rendererAfter exampleParser twoNodeDocument) nodeA =
       Inr [Copy (nodeA\<lparr>color := Finite 1\<rparr>), Copy (nodeB\<lparr>color := Finite 2\<rparr>), OnlyColor (Finite 2)]
   \<and> nodeB \<in> set (positions (rendererAfter exampleParser twoNodeDocument))
   \<and> forEachLinkedNode [\<lparr>fromId = js ''a'', toId = js ''x''\<rparr>] (name nodeB) = []
   \<and> getHighlightedNodes exampleColors (Some [\<lparr>fromId = js ''a'', toId = js ''x''\<rparr>])
        (rendererAfter exampleParser twoNodeDocument) nodeB =
       Inr [Copy (nodeB\<lparr>color := Finite 1\<rparr>)]"
proof -
  let ?st = "rendererAfter exampleParser twoNodeDocument"
  have a: "nodeA \<in> set (positions ?st)" and b: "nodeB \<in> set (positions ?st)"
    by (simp_all add: twoNodeDocument_state)
  have links: "forEachLinkedNode [\<lparr>fromId = js ''b'', toId = js ''a''\<rparr>, \<lparr>fromId = js ''a'', toId = js ''x''\<rparr>]
                 (name nodeA) =
               [((js ''b''), \<lparr>fromId = js ''b'', toId = js ''a''\<rparr>), ((js ''x''), \<lparr>fromId = js ''a'', toId = js ''x''\<rparr>)]"
    "forEachLinkedNode [\<lparr>fromId = js ''a'', toId = js ''x''\<rparr>] (name nodeB) = []"
    by (simp_all add: forEachLinkedNode_def nodeA_def nodeB_def)
  have look: "nodeNameToUI ?st (js ''b'') = Some nodeB" "nodeNameToUI ?st (js ''x'') = None"
    by (simp_all add: twoNodeDocument_state)
  from highlighted_nodes_sequence [OF a, of exampleColors
      "[\<lparr>fromId = js ''b'', toId = js ''a''\<rparr>, \<lparr>fromId = js ''a'', toId = js ''x''\<rparr>]"]
  have "getHighlightedNodes exampleColors
        (Some [\<lparr>fromId = js ''b'', toId = js ''a''\<rparr>, \<lparr>fromId = js ''a'', toId = js ''x''\<rparr>]) ?st nodeA =
       Inr [Copy (nodeA\<lparr>color := Finite 1\<rparr>), Copy (nodeB\<lparr>color := Finite 2\<rparr>), OnlyColor (Finite 2)]"
    by (simp add: links look highlightCopy_def exampleColors_def)
  moreover from highlighted_nodes_sequence [OF b, of exampleColors
      "[\<lparr>fromId = js ''a'', toId = js ''x''\<rparr>]"] links(2)
  have "getHighlightedNodes exampleColors (Some [\<lparr>fromId = js ''a'', toId = js ''x''\<rparr>]) ?st nodeB =
       Inr [Copy (nodeB\<lparr>color := Finite 1\<rparr>)]"
    by (simp add: exampleColors_def)
  ultimately show ?thesis
    using a b links(2) by blast
qed

text \<open>
  What the inner loop of \<^verbatim>\<open>getHighlightedLinks\<close> guarantees for one source node:
  it appends to \<^verbatim>\<open>linkUIs\<close>, and of the links it appends at most
  \<open>maxLinks + 1 - idx\<close> are not first-level, that is 11 from \<open>idx = 0\<close>.
\<close>

lemma secondary_links_per_source_bound:
  "linksOfNeighbor st ui neighbors c neighborId visits idx linkUIs = Inr r \<Longrightarrow>
     \<exists>new. r = linkUIs @ new
       \<and> length (filter (\<lambda>l. \<not> isFirstLevel l) new) \<le> Suc maxLinks - idx"
proof (induction visits arbitrary: idx linkUIs r)
  case Nil
  then show ?case by simp
next
  case (Cons v visits)
  obtain other link where v: "v = (other, link)" by (cases v)
  let ?first = "neighborId = name ui \<or> other = name ui"
  show ?case
  proof (cases "other \<in> set neighbors \<and> \<not> (idx > maxLinks \<and> \<not> ?first)")
    case False
    with Cons.prems v have
      "linksOfNeighbor st ui neighbors c neighborId visits idx linkUIs = Inr r"
      by (auto simp: Let_def split: if_splits)
    from Cons.IH [OF this] show ?thesis .
  next
    case True
    with Cons.prems v obtain a b where
      a: "nodeNameToUI st neighborId = Some a" and b: "nodeNameToUI st other = Some b"
      by (auto simp: Let_def split: option.splits)
    let ?l = "\<lparr>fromPos = position a, toPos = position b,
               linkColor = (if ?first then Some 0xffffffff else c),
               isFirstLevel = ?first\<rparr>"
    from Cons.prems v True a b have
      "linksOfNeighbor st ui neighbors c neighborId visits (idx + 1) (linkUIs @ [?l]) = Inr r"
      by (auto simp: Let_def split: if_splits)
    from Cons.IH [OF this] obtain new where
      new: "r = (linkUIs @ [?l]) @ new"
        "length (filter (\<lambda>l. \<not> isFirstLevel l) new) \<le> Suc maxLinks - (idx + 1)"
      by blast
    from True have "?first \<or> idx \<le> maxLinks" by auto
    with new(2) have "length (filter (\<lambda>l. \<not> isFirstLevel l) (?l # new)) \<le> Suc maxLinks - idx"
      by auto
    with new(1) show ?thesis
      by (intro exI [of _ "?l # new"]) simp
  qed
qed

lemma clusterDocument_lookup:
  "nodeNameToUI (rendererAfter exampleParser clusterDocument) (js ''u'') = Some nodeU"
  "nodeNameToUI (rendererAfter exampleParser clusterDocument) (js ''n'') = Some nodeN"
  "nodesByComponent (rendererAfter exampleParser clusterDocument) (js ''c'') =
     Some [(js ''u''), (js ''n''), (js ''m1''), (js ''m2''), (js ''m3''), (js ''m4''), (js ''m5''), (js ''m6''), (js ''m7''), (js ''m8''), (js ''m9''),
           (js ''m10''), (js ''m11'')]"
  by (simp_all add: clusterDocument_def nodeU_def nodeN_def ingest_simps parse_simps)

text \<open>
  C1, at an input where the code and the claim part. In the cluster of
  \<open>clusterDocument\<close> the node \<^verbatim>\<open>n\<close> has eleven links, all to members of the
  cluster and none to the focused node \<^verbatim>\<open>u\<close>. \<^verbatim>\<open>getHighlightedLinks(u)\<close> returns
  eleven links that start at \<^verbatim>\<open>n\<close> and are not first-level: the test
  \<^verbatim>\<open>idx > maxLinks\<close> lets the counter values 0 to 10 pass.
\<close>

theorem eleven_secondary_links_from_one_source:
  "nodeNameToUI (rendererAfter exampleParser clusterDocument) (js ''u'') = Some nodeU
   \<and> nodeNameToUI (rendererAfter exampleParser clusterDocument) (js ''n'') = Some nodeN
   \<and> length (forEachLinkedNode starGraph (js ''n'')) = 11
   \<and> (\<exists>linkUIs.
         getHighlightedLinks (Some starGraph) (rendererAfter exampleParser clusterDocument) nodeU
           = Inr linkUIs
         \<and> length (filter (\<lambda>l. fromPos l = position nodeN \<and> \<not> isFirstLevel l) linkUIs) = 11)"
proof -
  have "\<exists>linkUIs.
         getHighlightedLinks (Some starGraph) (rendererAfter exampleParser clusterDocument) nodeU
           = Inr linkUIs
         \<and> length (filter (\<lambda>l. fromPos l = position nodeN \<and> \<not> isFirstLevel l) linkUIs) = 11"
    by (simp add: getHighlightedLinks_def clusterDocument_def nodeU_def nodeN_def starGraph_def
        forEachLinkedNode_def maxLinks_def ingest_simps parse_simps)
  moreover have "length (forEachLinkedNode starGraph (js ''n'')) = 11"
    by (simp add: starGraph_def forEachLinkedNode_def)
  ultimately show ?thesis
    using clusterDocument_lookup by blast
qed

lemma linksOfNeighbor_returns:
  assumes "\<And>n. n \<in> set neighbors \<Longrightarrow> nodeNameToUI st n \<noteq> None"
    and "neighborId \<in> set neighbors"
  shows "\<exists>r. linksOfNeighbor st ui neighbors c neighborId visits idx linkUIs = Inr r"
  using assms
proof (induction visits arbitrary: idx linkUIs)
  case Nil
  then show ?case by simp
next
  case (Cons v visits)
  obtain other link where v: "v = (other, link)" by (cases v)
  show ?case
  proof (cases "other \<in> set neighbors")
    case False
    with v Cons show ?thesis by simp
  next
    case True
    with Cons.prems obtain a b where
      "nodeNameToUI st neighborId = Some a" "nodeNameToUI st other = Some b"
      by fastforce
    with v True Cons show ?thesis
      by (simp add: Let_def)
  qed
qed

lemma linksOfNeighbors_returns:
  assumes "\<And>n. n \<in> set neighbors \<Longrightarrow> nodeNameToUI st n \<noteq> None"
    and "set rest \<subseteq> set neighbors"
  shows "\<exists>r. linksOfNeighbors g st ui neighbors c rest linkUIs = Inr r"
  using assms
proof (induction rest arbitrary: linkUIs)
  case Nil
  then show ?case by simp
next
  case (Cons neighborId rest)
  from Cons.prems have "neighborId \<in> set neighbors" by simp
  from linksOfNeighbor_returns [OF Cons.prems(1) this] obtain r where
    r: "linksOfNeighbor st ui neighbors c neighborId (forEachLinkedNode g neighborId) 0 linkUIs
       = Inr r"
    by blast
  from Cons.prems have "set rest \<subseteq> set neighbors" by simp
  from Cons.IH [OF Cons.prems(1) this, of r] obtain r' where
    "linksOfNeighbors g st ui neighbors c rest r = Inr r'"
    by blast
  with r show ?case by simp
qed

lemma getHighlightedLinks_returns:
  assumes "nodesByComponent (rendererAfter lib events) (componentId ui) \<noteq> None"
  shows "\<exists>linkUIs. getHighlightedLinks graph' (rendererAfter lib events) ui = Inr linkUIs"
proof (cases graph')
  case None
  then show ?thesis by (simp add: getHighlightedLinks_def)
next
  case (Some g)
  let ?st = "rendererAfter lib events"
  from assms obtain ns where ns: "nodesByComponent ?st (componentId ui) = Some ns" by auto
  have "nodesIndexed ?st" by (rule nodesIndexed_rendererAfter)
  with ns have "\<And>n. n \<in> set ns \<Longrightarrow> nodeNameToUI ?st n \<noteq> None"
    unfolding nodesIndexed_def by blast
  from linksOfNeighbors_returns [OF this subset_refl] Some ns show ?thesis
    by (simp add: getHighlightedLinks_def)
qed

lemma getHighlightedNodes_nonempty: "getHighlightedNodes C (Some g) st ui \<noteq> Inr []"
proof (cases "nodesByComponent st (componentId ui)")
  case None
  then show ?thesis
    by (simp add: getHighlightedNodes_def highlightLinked_None)
next
  case (Some ns)
  then show ?thesis
    by (simp add: getHighlightedNodes_def highlightLinked_Some)
qed

text \<open>
  C3 as the claim states it fails. With the two-node document ingested and a graph
  loaded, a reference whose name and component are both unknown makes
  \<^verbatim>\<open>getHighlightedLinks\<close> throw (\<^verbatim>\<open>neighbors\<close> is undefined), and
  \<^verbatim>\<open>getHighlightedNodes\<close> returns one entry, not none.
\<close>

theorem unknown_reference_counterexample:
  "nodeNameToUI (rendererAfter exampleParser twoNodeDocument) (name staleNode) = None
   \<and> nodesByComponent (rendererAfter exampleParser twoNodeDocument) (componentId staleNode) = None
   \<and> getHighlightedLinks (Some [\<lparr>fromId = js ''b'', toId = js ''a''\<rparr>])
        (rendererAfter exampleParser twoNodeDocument) staleNode = Inl TypeError
   \<and> getHighlightedNodes exampleColors (Some [\<lparr>fromId = js ''b'', toId = js ''a''\<rparr>])
        (rendererAfter exampleParser twoNodeDocument) staleNode = Inr [OnlyColor (Finite 1)]"
  by (simp add: twoNodeDocument_state staleNode_def getHighlightedLinks_def
      getHighlightedNodes_def forEachLinkedNode_def highlightCopy_def exampleColors_def)

text \<open>
  C3 amended. While no graph is loaded both functions return the empty array for
  every reference, and do not throw. While a graph is loaded
  \<^verbatim>\<open>getHighlightedNodes\<close> never returns the empty array. If the component of \<open>ui\<close> is
  unknown, \<^verbatim>\<open>getHighlightedLinks\<close> throws a \<open>TypeError\<close>, and
  \<^verbatim>\<open>getHighlightedNodes\<close> returns the one entry for \<^verbatim>\<open>ui.name\<close> when that name has
  no link in the graph and throws a \<open>TypeError\<close> when it has one. If only the name is
  unknown, \<^verbatim>\<open>getHighlightedNodes\<close> returns an entry with nothing but the primary
  colour, followed by the entries of the nodes linked to that name. If the component
  is known to the indices of an ingested document, \<^verbatim>\<open>getHighlightedLinks\<close> does not
  throw.
\<close>

theorem highlights_of_unknown_reference:
  "getHighlightedNodes C None st ui = Inr []
   \<and> getHighlightedLinks None st ui = Inr []
   \<and> getHighlightedNodes C (Some g) st ui \<noteq> Inr []
   \<and> (nodesByComponent st (componentId ui) = None \<longrightarrow>
        getHighlightedLinks (Some g) st ui = Inl TypeError
        \<and> getHighlightedNodes C (Some g) st ui =
            (if forEachLinkedNode g (name ui) = []
             then Inr [highlightCopy (nodeNameToUI st (name ui)) (PRIMARY_HIGHLIGHT_COLOR C)]
             else Inl TypeError))
   \<and> (nodeNameToUI st (name ui) = None \<longrightarrow> nodesByComponent st (componentId ui) \<noteq> None \<longrightarrow>
        getHighlightedNodes C (Some g) st ui =
          Inr (OnlyColor (PRIMARY_HIGHLIGHT_COLOR C) #
               map (\<lambda>(other, link).
                      highlightCopy (nodeNameToUI st other) (SECONDARY_HIGHLIGHT_COLOR C))
                 (forEachLinkedNode g (name ui))))
   \<and> (nodesByComponent (rendererAfter lib events) (componentId ui) \<noteq> None \<longrightarrow>
        (\<exists>linkUIs. getHighlightedLinks (Some g) (rendererAfter lib events) ui = Inr linkUIs))"
proof -
  have 1: "getHighlightedNodes C None st ui = Inr []" "getHighlightedLinks None st ui = Inr []"
    by (simp_all add: getHighlightedNodes_def getHighlightedLinks_def)
  have 2: "getHighlightedLinks (Some g) st ui = Inl TypeError
        \<and> getHighlightedNodes C (Some g) st ui =
            (if forEachLinkedNode g (name ui) = []
             then Inr [highlightCopy (nodeNameToUI st (name ui)) (PRIMARY_HIGHLIGHT_COLOR C)]
             else Inl TypeError)"
    if "nodesByComponent st (componentId ui) = None"
    using that
    by (simp add: getHighlightedNodes_def getHighlightedLinks_def highlightLinked_None)
  have 3: "getHighlightedNodes C (Some g) st ui =
          Inr (OnlyColor (PRIMARY_HIGHLIGHT_COLOR C) #
               map (\<lambda>(other, link).
                      highlightCopy (nodeNameToUI st other) (SECONDARY_HIGHLIGHT_COLOR C))
                 (forEachLinkedNode g (name ui)))"
    if "nodeNameToUI st (name ui) = None" "nodesByComponent st (componentId ui) \<noteq> None"
    using that
    by (auto simp: getHighlightedNodes_def highlightLinked_Some highlightCopy_def)
  from 1 2 3 getHighlightedNodes_nonempty [of C g st ui]
    getHighlightedLinks_returns [of lib events ui "Some g"]
  show ?thesis
    by blast
qed

theorem highlights_of_unknown_reference_witness:
  "nodesByComponent (rendererAfter exampleParser twoNodeDocument) (componentId staleNode) = None
   \<and> forEachLinkedNode [\<lparr>fromId = js ''b'', toId = js ''a''\<rparr>] (name staleNode) = []
   \<and> getHighlightedLinks (Some [\<lparr>fromId = js ''b'', toId = js ''a''\<rparr>])
        (rendererAfter exampleParser twoNodeDocument) staleNode = Inl TypeError
   \<and> getHighlightedNodes exampleColors (Some [\<lparr>fromId = js ''b'', toId = js ''a''\<rparr>])
        (rendererAfter exampleParser twoNodeDocument) staleNode = Inr [OnlyColor (Finite 1)]
   \<and> forEachLinkedNode [\<lparr>fromId = js ''zzz'', toId = js ''a''\<rparr>] (name staleNode) \<noteq> []
   \<and> getHighlightedNodes exampleColors (Some [\<lparr>fromId = js ''zzz'', toId = js ''a''\<rparr>])
        (rendererAfter exampleParser twoNodeDocument) staleNode = Inl TypeError
   \<and> nodeNameToUI (rendererAfter exampleParser twoNodeDocument) (name renamedNode) = None
   \<and> nodesByComponent (rendererAfter exampleParser twoNodeDocument) (componentId renamedNode)
       \<noteq> None
   \<and> getHighlightedNodes exampleColors (Some [\<lparr>fromId = js ''zzz'', toId = js ''a''\<rparr>])
        (rendererAfter exampleParser twoNodeDocument) renamedNode
       = Inr [OnlyColor (Finite 1), Copy (nodeA\<lparr>color := Finite 2\<rparr>)]
   \<and> (\<exists>linkUIs. getHighlightedLinks (Some [\<lparr>fromId = js ''zzz'', toId = js ''a''\<rparr>])
                      (rendererAfter exampleParser twoNodeDocument) renamedNode = Inr linkUIs)"
proof -
  let ?st = "rendererAfter exampleParser twoNodeDocument"
  let ?g = "[\<lparr>fromId = js ''b'', toId = js ''a''\<rparr>]"
  let ?h = "[\<lparr>fromId = js ''zzz'', toId = js ''a''\<rparr>]"
  have c: "nodesByComponent ?st (componentId staleNode) = None"
    "nodesByComponent ?st (componentId renamedNode) \<noteq> None"
    by (simp_all add: twoNodeDocument_state staleNode_def renamedNode_def)
  have n: "nodeNameToUI ?st (name staleNode) = None" "nodeNameToUI ?st (name renamedNode) = None"
    "nodeNameToUI ?st (js ''a'') = Some nodeA"
    by (simp_all add: twoNodeDocument_state staleNode_def renamedNode_def)
  have l: "forEachLinkedNode ?g (name staleNode) = []"
    "forEachLinkedNode ?h (name staleNode) = [((js ''a''), \<lparr>fromId = js ''zzz'', toId = js ''a''\<rparr>)]"
    "forEachLinkedNode ?h (name renamedNode) = [((js ''a''), \<lparr>fromId = js ''zzz'', toId = js ''a''\<rparr>)]"
    by (simp_all add: forEachLinkedNode_def staleNode_def renamedNode_def)
  from highlights_of_unknown_reference [of exampleColors ?st staleNode ?g] c(1) l(1) n(1)
  have a: "getHighlightedLinks (Some ?g) ?st staleNode = Inl TypeError"
    "getHighlightedNodes exampleColors (Some ?g) ?st staleNode = Inr [OnlyColor (Finite 1)]"
    by (simp_all add: highlightCopy_def exampleColors_def)
  from highlights_of_unknown_reference [of exampleColors ?st staleNode ?h] c(1) l(2)
  have b: "getHighlightedNodes exampleColors (Some ?h) ?st staleNode = Inl TypeError"
    by simp
  from highlights_of_unknown_reference [of exampleColors ?st renamedNode ?h] c(2) n(2) l(3) n(3)
  have d: "getHighlightedNodes exampleColors (Some ?h) ?st renamedNode
            = Inr [OnlyColor (Finite 1), Copy (nodeA\<lparr>color := Finite 2\<rparr>)]"
    by (simp add: highlightCopy_def exampleColors_def)
  from highlights_of_unknown_reference
         [of exampleColors ?st renamedNode ?h exampleParser twoNodeDocument] c(2)
  have e: "\<exists>linkUIs. getHighlightedLinks (Some ?h) ?st renamedNode = Inr linkUIs"
    by blast
  from a b d e c n l show ?thesis
    by simp
qed

section \<open>Properties of the subgraph of related nodes\<close>

lemmas related_simps =
  showRelated_def relateNode_def relateLink_def addNeighbors_def forEachLinkedNode_def hasLink_def
  subgraphAddNode_def subgraphAddLink_def subgraphHasLink_def ensureNode_def createGraph_def
  setAdd_def Let_def

text \<open>
  What \<^verbatim>\<open>showRelated\<close> guarantees for the tag: every node of the two-hop set other
  than the root is tagged \<^verbatim>\<open>isFirstChild\<close> with the answer of
  \<^verbatim>\<open>graph.hasLink(node, subreddit)\<close> alone, the link from the node to the root.
\<close>

lemma relateLink_data:
  "(nodeDataOf (relateLink subreddit subgraphNodes visit sg) k = Some (Some d))
     = (nodeDataOf sg k = Some (Some d))"
  by (cases visit)
    (auto simp: relateLink_def subgraphAddLink_def ensureNode_def Let_def split: option.splits)

lemma fold_relateLink_data:
  "(nodeDataOf (fold (relateLink subreddit subgraphNodes) visits sg) k = Some (Some d))
     = (nodeDataOf sg k = Some (Some d))"
  by (induction visits arbitrary: sg) (simp_all add: relateLink_data)

lemma relateNode_keeps:
  assumes "nodeDataOf sg k = Some (Some d)"
  shows "nodeDataOf (relateNode g subreddit subgraphNodes node sg) k = Some (Some d)"
proof (cases "\<exists>d'. nodeDataOf sg node = Some (Some d')")
  case True
  with assms show ?thesis
    by (auto simp: relateNode_def fold_relateLink_data)
next
  case False
  with assms have "k \<noteq> node" by auto
  with assms False show ?thesis
    by (auto simp: relateNode_def Let_def fold_relateLink_data subgraphAddNode_def
        split: option.splits)
qed

lemma relateNode_other:
  assumes "k \<noteq> node" "\<And>d. nodeDataOf sg k \<noteq> Some (Some d)"
  shows "nodeDataOf (relateNode g subreddit subgraphNodes node sg) k \<noteq> Some (Some d)"
  using assms
  by (auto simp: relateNode_def Let_def fold_relateLink_data subgraphAddNode_def
      split: option.splits)

lemma relateNode_tags:
  assumes "\<And>d. nodeDataOf sg node \<noteq> Some (Some d)"
  shows "nodeDataOf (relateNode g subreddit subgraphNodes node sg) node =
           Some (Some (IsFirstChild (hasLink g (NodeId node) (NodeId subreddit))))"
  using assms
  by (auto simp: relateNode_def Let_def fold_relateLink_data subgraphAddNode_def hasLink_def
      split: option.splits)

lemma fold_relateNode_keeps:
  "nodeDataOf sg k = Some (Some d) \<Longrightarrow>
     nodeDataOf (fold (relateNode g subreddit subgraphNodes) nodes sg) k = Some (Some d)"
  by (induction nodes arbitrary: sg) (simp_all add: relateNode_keeps)

lemma fold_relateNode_tags:
  assumes "node \<in> set nodes" "\<And>d. nodeDataOf sg node \<noteq> Some (Some d)"
  shows "nodeDataOf (fold (relateNode g subreddit subgraphNodes) nodes sg) node =
           Some (Some (IsFirstChild (hasLink g (NodeId node) (NodeId subreddit))))"
  using assms
proof (induction nodes arbitrary: sg)
  case Nil
  then show ?case by simp
next
  case (Cons m nodes)
  show ?case
  proof (cases "m = node")
    case True
    from relateNode_tags [of sg node g subreddit subgraphNodes] Cons.prems(2)
    have "nodeDataOf (relateNode g subreddit subgraphNodes node sg) node =
           Some (Some (IsFirstChild (hasLink g (NodeId node) (NodeId subreddit))))"
      by blast
    from fold_relateNode_keeps [OF this] True show ?thesis by simp
  next
    case False
    with Cons.prems have "node \<in> set nodes" by simp
    moreover from False Cons.prems(2)
    have "\<And>d. nodeDataOf (relateNode g subreddit subgraphNodes m sg) node \<noteq> Some (Some d)"
      by (intro relateNode_other) auto
    ultimately show ?thesis
      using Cons.IH [of "relateNode g subreddit subgraphNodes m sg"] by simp
  qed
qed

lemma showRelated_first_child_tag:
  assumes "showRelated (Some g) subreddit = Inr sg"
    and "node \<in> set (fold (addNeighbors g) (addNeighbors g subreddit [])
                        (addNeighbors g subreddit []))"
    and "node \<noteq> subreddit"
  shows "nodeDataOf sg node =
           Some (Some (IsFirstChild (list_ex (\<lambda>link. fromId link = node \<and> toId link = subreddit) g)))"
proof -
  let ?nodes = "fold (addNeighbors g) (addNeighbors g subreddit []) (addNeighbors g subreddit [])"
  let ?sg0 = "subgraphAddNode subreddit (IsRoot True) createGraph"
  from assms(1) have sg: "sg = fold (relateNode g subreddit ?nodes) ?nodes ?sg0"
    by (simp add: showRelated_def Let_def)
  from assms(3) have "\<And>d. nodeDataOf ?sg0 node \<noteq> Some (Some d)"
    by (simp add: subgraphAddNode_def createGraph_def)
  from fold_relateNode_tags [OF assms(2) this] sg show ?thesis
    by (simp add: hasLink_def)
qed

lemma showRelated_root_tag:
  assumes "showRelated (Some g) subreddit = Inr sg"
  shows "nodeDataOf sg subreddit = Some (Some (IsRoot True))"
proof -
  let ?nodes = "fold (addNeighbors g) (addNeighbors g subreddit []) (addNeighbors g subreddit [])"
  let ?sg0 = "subgraphAddNode subreddit (IsRoot True) createGraph"
  from assms(1) have sg: "sg = fold (relateNode g subreddit ?nodes) ?nodes ?sg0"
    by (simp add: showRelated_def Let_def)
  have "nodeDataOf ?sg0 subreddit = Some (Some (IsRoot True))"
    by (simp add: subgraphAddNode_def createGraph_def)
  from fold_relateNode_keeps [OF this] sg show ?thesis
    by simp
qed

text \<open>
  C2, at an input where the code and the claim part. For the graph of the spec's
  example with the links at the root pointing away from it, \<^verbatim>\<open>showRelated('R')\<close>
  tags \<^verbatim>\<open>A\<close> and \<^verbatim>\<open>B\<close> with \<^verbatim>\<open>isFirstChild = false\<close> although the graph has the
  links from \<^verbatim>\<open>R\<close> to \<^verbatim>\<open>A\<close> and to \<^verbatim>\<open>B\<close>; when the same links point to the root
  the tags are \<^verbatim>\<open>true\<close>.
\<close>

theorem first_child_tag_misses_links_from_root:
  "hasLink rootOutGraph (NodeId (js ''R'')) (NodeId (js ''A''))
   \<and> hasLink rootOutGraph (NodeId (js ''R'')) (NodeId (js ''B''))
   \<and> showRelated (Some rootOutGraph) (js ''R'') =
       Inr \<lparr>nodeDataOf =
              [js ''R'' \<mapsto> Some (IsRoot True), js ''A'' \<mapsto> Some (IsFirstChild False),
               js ''B'' \<mapsto> Some (IsFirstChild False), js ''C'' \<mapsto> Some (IsFirstChild False)],
            relatedLinks =
              [\<lparr>linkFrom = js ''R'', linkTo = js ''A'', isRootLevel = True\<rparr>,
               \<lparr>linkFrom = js ''A'', linkTo = js ''C'', isRootLevel = False\<rparr>,
               \<lparr>linkFrom = js ''R'', linkTo = js ''B'', isRootLevel = True\<rparr>]\<rparr>
   \<and> showRelated (Some rootInGraph) (js ''R'') =
       Inr \<lparr>nodeDataOf =
              [js ''R'' \<mapsto> Some (IsRoot True), js ''A'' \<mapsto> Some (IsFirstChild True),
               js ''B'' \<mapsto> Some (IsFirstChild True), js ''C'' \<mapsto> Some (IsFirstChild False)],
            relatedLinks =
              [\<lparr>linkFrom = js ''A'', linkTo = js ''R'', isRootLevel = True\<rparr>,
               \<lparr>linkFrom = js ''A'', linkTo = js ''C'', isRootLevel = False\<rparr>,
               \<lparr>linkFrom = js ''B'', linkTo = js ''R'', isRootLevel = True\<rparr>]\<rparr>"
  by (simp add: related_simps rootOutGraph_def rootInGraph_def)


end
